theory Spec2Isabelle
  imports Main
begin

section \<open>The version script: data model\<close>

text \<open>
  The development follows \<^verbatim>\<open>scripts/version.js\<close> (the Node script that parses,
  bumps and writes back the package version).

  Strings are lists of \<^typ>\<open>char\<close>, one \<^typ>\<open>char\<close> per code unit of the JavaScript string;
  the model therefore covers the strings whose code units are below 256. In that range
  the line terminators of JavaScript are LF and CR, and the white space of \<^verbatim>\<open>\s\<close>,
  \<^verbatim>\<open>trim\<close> and \<^verbatim>\<open>parseInt\<close> is TAB, LF, VT, FF, CR, SP and NBSP.

  Numbers of the script are double precision numbers. The model holds the integers
  among them and \<^verbatim>\<open>NaN\<close>: a number is \<open>Num i\<close> for an integer \<open>i\<close>, and the result of an
  operation is rounded to the nearest double, ties to the even significand
  (\<open>to_double\<close>). Every integer of magnitude up to \<open>2^53\<close> is a double, so up to
  \<^verbatim>\<open>Number.MAX_SAFE_INTEGER\<close> the arithmetic of the script is integer arithmetic; from
  \<open>2^53\<close> on, adding 1 is lost in the rounding. The overflow to \<^verbatim>\<open>Infinity\<close> (magnitudes
  from \<open>2^1024\<close> on) is outside the model.
\<close>

datatype number = NaN | Num int

definition isNaN :: "number \<Rightarrow> bool" where
  "isNaN n = (n = NaN)"

text \<open>The number of binary digits of a non-negative integer beyond the first 53.\<close>

function excess_bits :: "int \<Rightarrow> nat" where
  "excess_bits m = (if m < 2 ^ 53 then 0 else Suc (excess_bits (m div 2)))"
  by pat_completeness auto
termination
  by (relation "measure nat") auto

declare excess_bits.simps [simp del]

text \<open>
  The double nearest to an integer: up to \<open>2^53\<close> the integer itself; above, the integer
  is cut to its 53 leading binary digits \<open>q\<close>, and \<open>q\<close> is rounded up when the \<open>e\<close> digits
  cut off are more than half a unit of \<open>q\<close>, or exactly half and \<open>q\<close> is odd.
\<close>

definition to_double :: "int \<Rightarrow> int" where
  "to_double x =
     (let m = \<bar>x\<bar>
      in if m \<le> 2 ^ 53 then x
         else (let e = excess_bits m;
                   q = m div 2 ^ e;
                   r = m mod 2 ^ e;
                   half = 2 ^ (e - 1);
                   q' = (if half < r \<or> (r = half \<and> odd q) then q + 1 else q)
               in sgn x * (q' * 2 ^ e)))"

text \<open>\<^verbatim>\<open>x + 1\<close> and \<^verbatim>\<open>x++\<close> on a number.\<close>

fun incr :: "number \<Rightarrow> number" where
  "incr NaN = NaN"
| "incr (Num i) = Num (to_double (i + 1))"

definition MAX_SAFE_INTEGER :: int where
  "MAX_SAFE_INTEGER = 9007199254740991"

text \<open>A non-negative integer that the script's numbers hold exactly.\<close>

fun safe_natural :: "number \<Rightarrow> bool" where
  "safe_natural NaN = False"
| "safe_natural (Num i) = (0 \<le> i \<and> i \<le> MAX_SAFE_INTEGER)"

subsection \<open>Character classes\<close>

definition isDigit :: "char \<Rightarrow> bool" where
  "isDigit c = (48 \<le> (of_char c :: nat) \<and> (of_char c :: nat) \<le> 57)"

definition isLineTerminator :: "char \<Rightarrow> bool" where
  "isLineTerminator c = ((of_char c :: nat) = 10 \<or> (of_char c :: nat) = 13)"

definition isWhiteSpace :: "char \<Rightarrow> bool" where
  "isWhiteSpace c = ((of_char c :: nat) = 9 \<or> (of_char c :: nat) = 10 \<or> (of_char c :: nat) = 11
     \<or> (of_char c :: nat) = 12 \<or> (of_char c :: nat) = 13 \<or> (of_char c :: nat) = 32
     \<or> (of_char c :: nat) = 160)"

text \<open>The class \<^verbatim>\<open>\w\<close>: letters, digits and the underscore.\<close>

definition isWordChar :: "char \<Rightarrow> bool" where
  "isWordChar c = (isDigit c \<or> (65 \<le> (of_char c :: nat) \<and> (of_char c :: nat) \<le> 90)
     \<or> (97 \<le> (of_char c :: nat) \<and> (of_char c :: nat) \<le> 122) \<or> c = CHR ''_'')"

subsection \<open>Numbers and strings\<close>

definition digit_char :: "nat \<Rightarrow> char" where
  "digit_char d = char_of (d + 48)"

fun decimal :: "nat \<Rightarrow> string" where
  "decimal n = (if n < 10 then [digit_char n] else decimal (n div 10) @ [digit_char (n mod 10)])"

declare decimal.simps [simp del]

text \<open>
  \<^verbatim>\<open>Number.prototype.toString\<close> and the conversion of a template literal: the decimal
  digits of the integer, which is what the script prints for every integer of magnitude
  up to \<open>2^53\<close>. (Above, the script prints the shortest digits that read back as the
  same double, and exponent notation from \<open>10^21\<close> on; the model does not follow it
  there, and no statement below formats a number above \<open>2^53\<close>.)
\<close>

fun toString :: "number \<Rightarrow> string" where
  "toString NaN = ''NaN''"
| "toString (Num i) = (if i < 0 then CHR ''-'' # decimal (nat (- i)) else decimal (nat i))"

text \<open>The value of a character as a digit, in any radix up to 36.\<close>

definition digit_value :: "char \<Rightarrow> nat option" where
  "digit_value c =
     (if isDigit c then Some (of_char c - 48)
      else if 97 \<le> (of_char c :: nat) \<and> (of_char c :: nat) \<le> 122 then Some (of_char c - 87)
      else if 65 \<le> (of_char c :: nat) \<and> (of_char c :: nat) \<le> 90 then Some (of_char c - 55)
      else None)"

definition isRadixDigit :: "nat \<Rightarrow> char \<Rightarrow> bool" where
  "isRadixDigit R c = (case digit_value c of None \<Rightarrow> False | Some d \<Rightarrow> d < R)"

definition radix_value :: "nat \<Rightarrow> string \<Rightarrow> nat" where
  "radix_value R z = foldl (\<lambda>acc c. acc * R + (case digit_value c of None \<Rightarrow> 0 | Some d \<Rightarrow> d)) 0 z"

text \<open>
  \<^verbatim>\<open>parseInt(string)\<close> with no radix argument: leading white space is dropped, a sign is
  read, the prefix \<^verbatim>\<open>0x\<close> or \<^verbatim>\<open>0X\<close> selects radix 16, and the longest prefix of digits of
  the radix is the value, rounded to a double; with no digit the result is \<^verbatim>\<open>NaN\<close>.
  (For a decimal numeral of more than 20 significant digits the standard lets an
  implementation replace the later digits by 0 before rounding; the model rounds the
  exact value.)
\<close>

definition parseInt :: "string \<Rightarrow> number" where
  "parseInt inputString =
     (let S = dropWhile isWhiteSpace inputString;
          sign = (case S of c # _ \<Rightarrow> if c = CHR ''-'' then - 1 else 1 | [] \<Rightarrow> (1 :: int));
          S1 = (case S of c # r \<Rightarrow> if c = CHR ''-'' \<or> c = CHR ''+'' then r else S | [] \<Rightarrow> S);
          hex = (case S1 of a # b # _ \<Rightarrow> a = CHR ''0'' \<and> (b = CHR ''x'' \<or> b = CHR ''X'') | _ \<Rightarrow> False);
          R = (if hex then 16 else 10);
          S2 = (if hex then drop 2 S1 else S1);
          Z = takeWhile (isRadixDigit R) S2
      in if Z = [] then NaN else Num (sign * to_double (int (radix_value R Z))))"

subsection \<open>Versions\<close>

text \<open>The object built by \<^verbatim>\<open>parseVersion\<close>; \<open>None\<close> is \<^verbatim>\<open>null\<close>.\<close>

record version =
  major :: number
  minor :: number
  patch :: number
  prerelease :: "string option"

text \<open>
  What the script can throw: \<^verbatim>\<open>new Error(message)\<close>, the \<^verbatim>\<open>TypeError\<close> of a method call on a
  value that has no such method, and the error of a failed file operation (with the path).
\<close>

datatype error =
  Error string
| TypeError
| SystemError string

text \<open>
  The pieces of the regular expressions of the script, each applied at the start of a
  string and giving what it matched and the rest: a literal text, a non-empty greedy run
  of a character class (\<^verbatim>\<open>C+\<close> followed by something outside the class), and one
  character of a class.
\<close>

definition literal :: "string \<Rightarrow> string \<Rightarrow> string option" where
  "literal l s = (if take (length l) s = l then Some (drop (length l) s) else None)"

definition class_run :: "(char \<Rightarrow> bool) \<Rightarrow> string \<Rightarrow> (string \<times> string) option" where
  "class_run C s = (if takeWhile C s = [] then None else Some (takeWhile C s, dropWhile C s))"

definition class_char :: "(char \<Rightarrow> bool) \<Rightarrow> string \<Rightarrow> (char \<times> string) option" where
  "class_char C s = (case s of [] \<Rightarrow> None | c # r \<Rightarrow> if C c then Some (c, r) else None)"

text \<open>
  The regular expression \<^verbatim>\<open>/^(\d+)\.(\d+)\.(\d+)(?:-(.+))?$/\<close>. A group \<^verbatim>\<open>(\d+)\<close> is
  followed by a character that is no digit (or by the end), so it takes the whole run of
  digits; \<^verbatim>\<open>.\<close> matches every character but a line terminator, and \<^verbatim>\<open>$\<close> is the end of
  the input (the expression has no \<^verbatim>\<open>m\<close> flag). The result holds the texts of the four groups, \<open>None\<close>
  for the group that took no part in the match.
\<close>

definition digit_group :: "string \<Rightarrow> (string \<times> string) option" where
  "digit_group s = class_run isDigit s"

definition literal_dot :: "string \<Rightarrow> string option" where
  "literal_dot s = literal ''.'' s"

definition match_version :: "string \<Rightarrow> (string \<times> string \<times> string \<times> string option) option" where
  "match_version s =
     (case digit_group s of None \<Rightarrow> None | Some (m1, r1) \<Rightarrow>
      case literal_dot r1 of None \<Rightarrow> None | Some r2 \<Rightarrow>
      case digit_group r2 of None \<Rightarrow> None | Some (m2, r3) \<Rightarrow>
      case literal_dot r3 of None \<Rightarrow> None | Some r4 \<Rightarrow>
      case digit_group r4 of None \<Rightarrow> None | Some (m3, r5) \<Rightarrow>
      (case r5 of
         [] \<Rightarrow> Some (m1, m2, m3, None)
       | c # p \<Rightarrow>
           if c = CHR ''-'' \<and> p \<noteq> [] \<and> \<not> list_ex isLineTerminator p
           then Some (m1, m2, m3, Some p) else None))"

definition parseVersion :: "string \<Rightarrow> error + version" where
  "parseVersion version =
     (case match_version version of
        None \<Rightarrow> Inl (Error (''Invalid version format: '' @ version))
      | Some (m1, m2, m3, m4) \<Rightarrow>
          Inr \<lparr>major = parseInt m1, minor = parseInt m2, patch = parseInt m3,
               prerelease = (case m4 of None \<Rightarrow> None | Some p \<Rightarrow> if p = [] then None else Some p)\<rparr>)"

definition formatVersion :: "version \<Rightarrow> string" where
  "formatVersion versionObj =
     (let version = toString (major versionObj) @ ''.'' @ toString (minor versionObj) @ ''.''
                    @ toString (patch versionObj)
      in case prerelease versionObj of
           None \<Rightarrow> version
         | Some p \<Rightarrow> if p = [] then version else version @ ''-'' @ p)"

subsection \<open>Bumping\<close>

text \<open>\<^verbatim>\<open>String.prototype.split\<close> with a one-character separator, and \<^verbatim>\<open>Array.prototype.join\<close>.\<close>

fun split :: "char \<Rightarrow> string \<Rightarrow> string list" where
  "split sep [] = [[]]"
| "split sep (c # cs) =
     (if c = sep then [] # split sep cs
      else (case split sep cs of [] \<Rightarrow> [[c]] | p # ps \<Rightarrow> (c # p) # ps))"

fun join :: "string \<Rightarrow> string list \<Rightarrow> string" where
  "join sep [] = []"
| "join sep [p] = p"
| "join sep (p # q # ps) = p @ sep @ join sep (q # ps)"

text \<open>The branch \<^verbatim>\<open>case 'prerelease'\<close> of the switch.\<close>

definition bump_prerelease :: "version \<Rightarrow> version" where
  "bump_prerelease parsed =
     (case prerelease parsed of
        None \<Rightarrow> parsed\<lparr>patch := incr (patch parsed), prerelease := Some ''alpha.0''\<rparr>
      | Some pre \<Rightarrow>
          if pre = [] then parsed\<lparr>patch := incr (patch parsed), prerelease := Some ''alpha.0''\<rparr>
          else (case split (CHR ''.'') pre of
                  [p0, p1] \<Rightarrow>
                    if \<not> isNaN (parseInt p1)
                    then parsed\<lparr>prerelease := Some (join ''.'' [p0, toString (incr (parseInt p1))])\<rparr>
                    else parsed\<lparr>prerelease := Some ''alpha.0''\<rparr>
                | _ \<Rightarrow> parsed\<lparr>prerelease := Some ''alpha.0''\<rparr>))"

text \<open>The switch of \<^verbatim>\<open>bumpVersion\<close> on the parsed version.\<close>

definition bump :: "version \<Rightarrow> string \<Rightarrow> error + version" where
  "bump parsed bumpType =
     (if bumpType = ''major'' then
        Inr (parsed\<lparr>major := incr (major parsed), minor := Num 0, patch := Num 0, prerelease := None\<rparr>)
      else if bumpType = ''minor'' then
        Inr (parsed\<lparr>minor := incr (minor parsed), patch := Num 0, prerelease := None\<rparr>)
      else if bumpType = ''patch'' then
        Inr (parsed\<lparr>patch := incr (patch parsed), prerelease := None\<rparr>)
      else if bumpType = ''premajor'' then
        Inr (parsed\<lparr>major := incr (major parsed), minor := Num 0, patch := Num 0,
                    prerelease := Some ''alpha.0''\<rparr>)
      else if bumpType = ''preminor'' then
        Inr (parsed\<lparr>minor := incr (minor parsed), patch := Num 0, prerelease := Some ''alpha.0''\<rparr>)
      else if bumpType = ''prepatch'' then
        Inr (parsed\<lparr>patch := incr (patch parsed), prerelease := Some ''alpha.0''\<rparr>)
      else if bumpType = ''prerelease'' then Inr (bump_prerelease parsed)
      else Inl (Error (''Invalid bump type: '' @ bumpType)))"

definition bumpVersion :: "string \<Rightarrow> string \<Rightarrow> error + string" where
  "bumpVersion currentVersion bumpType =
     (case parseVersion currentVersion of
        Inl e \<Rightarrow> Inl e
      | Inr parsed \<Rightarrow>
          (case bump parsed bumpType of Inl e \<Rightarrow> Inl e | Inr bumped \<Rightarrow> Inr (formatVersion bumped)))"

text \<open>
  A valid version in the safe range: the three components are non-negative integers of
  at most \<^verbatim>\<open>Number.MAX_SAFE_INTEGER\<close>, and the prerelease is absent or a non-empty string.
\<close>

definition valid_version :: "version \<Rightarrow> bool" where
  "valid_version v =
     (safe_natural (major v) \<and> safe_natural (minor v) \<and> safe_natural (patch v)
      \<and> prerelease v \<noteq> Some [])"

subsection \<open>The grammar of version strings\<close>

text \<open>A non-empty run of decimal digits, \<^verbatim>\<open>\d+\<close>.\<close>

definition digits :: "string \<Rightarrow> bool" where
  "digits s = (s \<noteq> [] \<and> list_all isDigit s)"

text \<open>
  The strings of the shape \<^verbatim>\<open>\d+\.\d+\.\d+(-C+)?\<close>, where the class \<open>C\<close> of the suffix is
  every character outside \<open>excluded\<close>. The specification writes \<^verbatim>\<open>[^\s]\<close> for the class,
  the regular expression of the script writes \<^verbatim>\<open>.\<close>.
\<close>

definition version_grammar :: "(char \<Rightarrow> bool) \<Rightarrow> string \<Rightarrow> bool" where
  "version_grammar excluded s =
     (\<exists>a b c suffix. s = a @ ''.'' @ b @ ''.'' @ c @ suffix \<and> digits a \<and> digits b \<and> digits c
        \<and> (suffix = [] \<or> (\<exists>p. suffix = ''-'' @ p \<and> p \<noteq> [] \<and> \<not> list_ex excluded p)))"

definition spec_version_grammar :: "string \<Rightarrow> bool" where
  "spec_version_grammar = version_grammar isWhiteSpace"

definition script_version_grammar :: "string \<Rightarrow> bool" where
  "script_version_grammar = version_grammar isLineTerminator"

text \<open>
  A decimal numeral written without a leading zero, of a value that the script's numbers
  hold exactly.
\<close>

definition canonical_numeral :: "string \<Rightarrow> bool" where
  "canonical_numeral m =
     (digits m \<and> (m = ''0'' \<or> hd m \<noteq> CHR ''0'') \<and> int (radix_value 10 m) \<le> MAX_SAFE_INTEGER)"

section \<open>The version script: the command\<close>

subsection \<open>The pattern of the version literal\<close>

text \<open>
  The regular expression \<^verbatim>\<open>/return\s+["'][\d\.]+([-\w\.]*)?["'];/\<close>. At a given start the
  match is determined: \<^verbatim>\<open>\s+\<close> is followed by a quote, so it takes the whole run of white
  space; \<^verbatim>\<open>[\d\.]+\<close> takes the whole run of digits and dots, the group takes the rest of the
  run of \<^verbatim>\<open>[-\w\.]\<close>, and the next two characters are a quote and a semicolon.
\<close>

definition isQuote :: "char \<Rightarrow> bool" where
  "isQuote c = (c = CHR 0x22 \<or> c = CHR 0x27)"

definition isVersionChar :: "char \<Rightarrow> bool" where
  "isVersionChar c = (isDigit c \<or> c = CHR ''.'')"

definition isQualifierChar :: "char \<Rightarrow> bool" where
  "isQualifierChar c = (c = CHR ''-'' \<or> isWordChar c \<or> c = CHR ''.'')"

text \<open>A match at the start of the string: the matched text, the text of group 1, the rest.\<close>

definition versionRegex_at :: "string \<Rightarrow> (string \<times> string \<times> string) option" where
  "versionRegex_at s =
     (case literal ''return'' s of None \<Rightarrow> None | Some r1 \<Rightarrow>
      case class_run isWhiteSpace r1 of None \<Rightarrow> None | Some (ws, r2) \<Rightarrow>
      case class_char isQuote r2 of None \<Rightarrow> None | Some (q1, r3) \<Rightarrow>
      case class_run isVersionChar r3 of None \<Rightarrow> None | Some (num, r4) \<Rightarrow>
      (let qual = takeWhile isQualifierChar r4;
           r5 = dropWhile isQualifierChar r4
       in case class_char isQuote r5 of None \<Rightarrow> None | Some (q2, r6) \<Rightarrow>
          case class_char (\<lambda>c. c = CHR '';'') r6 of None \<Rightarrow> None | Some (semi, r7) \<Rightarrow>
            Some (''return'' @ ws @ [q1] @ num @ qual @ [q2] @ [semi], qual, r7)))"

text \<open>
  The texts that the regular expression matches, read off its pieces: \<^verbatim>\<open>return\<close>, white
  space, a quote, digits and dots, characters of \<^verbatim>\<open>[-\w\.]\<close>, a quote, a semicolon.
\<close>

definition versionRegex_language :: "string \<Rightarrow> bool" where
  "versionRegex_language m =
     (\<exists>ws q1 num qual q2.
        m = ''return'' @ ws @ [q1] @ num @ qual @ [q2] @ '';''
        \<and> ws \<noteq> [] \<and> list_all isWhiteSpace ws \<and> isQuote q1
        \<and> num \<noteq> [] \<and> list_all isVersionChar num \<and> list_all isQualifierChar qual \<and> isQuote q2)"

text \<open>
  The leftmost match: the text preceding it, the matched text, group 1 and the text following.
\<close>

fun versionRegex_search :: "string \<Rightarrow> string \<Rightarrow> (string \<times> string \<times> string \<times> string) option" where
  "versionRegex_search preceding s =
     (case versionRegex_at s of
        Some (m, g, rest) \<Rightarrow> Some (preceding, m, g, rest)
      | None \<Rightarrow> (case s of [] \<Rightarrow> None | c # cs \<Rightarrow> versionRegex_search (preceding @ [c]) cs))"

declare versionRegex_search.simps [simp del]

text \<open>
  The expansion of a replacement string by \<^verbatim>\<open>String.prototype.replace\<close>, for a pattern
  with one group and no named group: \<^verbatim>\<open>$$\<close> is a dollar sign, \<^verbatim>\<open>$&\<close> the matched text,
  \<^verbatim>\<open>$`\<close> the text preceding the match, \<^verbatim>\<open>$'\<close> the text following it, \<^verbatim>\<open>$1\<close> and \<^verbatim>\<open>$01\<close> the
  group; every other dollar sign stands for itself.
\<close>

fun GetSubstitution :: "string \<Rightarrow> string \<Rightarrow> string \<Rightarrow> string \<Rightarrow> string \<Rightarrow> string" where
  "GetSubstitution matched preceding cap following [] = []"
| "GetSubstitution matched preceding cap following [c] = [c]"
| "GetSubstitution matched preceding cap following (c # d # t) =
     (if c \<noteq> CHR ''$'' then c # GetSubstitution matched preceding cap following (d # t)
      else if d = CHR ''$'' then CHR ''$'' # GetSubstitution matched preceding cap following t
      else if d = CHR ''&'' then matched @ GetSubstitution matched preceding cap following t
      else if d = CHR 0x60 then preceding @ GetSubstitution matched preceding cap following t
      else if d = CHR 0x27 then following @ GetSubstitution matched preceding cap following t
      else if d = CHR ''1'' then cap @ GetSubstitution matched preceding cap following t
      else (case t of
              e # t' \<Rightarrow>
                if d = CHR ''0'' \<and> e = CHR ''1'' then cap @ GetSubstitution matched preceding cap following t'
                else CHR ''$'' # GetSubstitution matched preceding cap following (d # t)
            | [] \<Rightarrow> CHR ''$'' # GetSubstitution matched preceding cap following (d # t)))"

text \<open>\<^verbatim>\<open>content.replace(versionRegex, replacement)\<close>: the expression has no \<^verbatim>\<open>g\<close> flag.\<close>

definition replace_versionRegex :: "string \<Rightarrow> string \<Rightarrow> string" where
  "replace_versionRegex content replacement =
     (case versionRegex_search [] content of
        None \<Rightarrow> content
      | Some (preceding, m, g, following) \<Rightarrow>
          preceding @ GetSubstitution m preceding g following replacement @ following)"

subsection \<open>The world of the script\<close>

text \<open>The value of a field of the manifest: a string, or a value of another type.\<close>

datatype jsvalue = Str string | Other

text \<open>
  What a line of output says; the colours and the wording of the lines are left out.
  \<open>UncaughtException\<close> is the report of Node for an exception that no handler catches.
\<close>

datatype message =
  HelpText
| ErrorReadingPackageJson
| ErrorWritingPackageJson
| PackageJsonUpdated
| GitNotAvailable
| UncommittedChanges string
| GitTagCreated string
| CurrentVersion jsvalue
| InvalidBumpTypeMsg string
| VersionChange string string
| DryRunNotice
| UpdatedIndexTs
| Success string
| ErrorMsg error
| UncaughtException

text \<open>
  The readable files by path (relative to the working directory), the paths that exist
  but cannot be read as a file (a directory), the paths that cannot be written, what
  \<^verbatim>\<open>execSync\<close> answers to a command (\<open>None\<close> when it throws), and the record of what the
  run did: the paths written, the commands executed and the lines printed, oldest first.
\<close>

record world =
  files :: "string \<rightharpoonup> string"
  unreadable :: "string \<Rightarrow> bool"
  write_fails :: "string \<Rightarrow> bool"
  exec_output :: "string \<rightharpoonup> string"
  writes :: "string list"
  git_commands :: "string list"
  console :: "message list"

text \<open>A procedure either returns or ends the process with an exit code.\<close>

datatype 'a outcome = Exit nat world | Return 'a world

text \<open>
  The JSON library and the reading and assignment of the field \<^verbatim>\<open>version\<close>, over the
  type \<open>'j\<close> of parsed documents: \<open>parse\<close> is \<open>None\<close> when \<^verbatim>\<open>JSON.parse\<close> throws,
  \<open>stringify\<close> is \<^verbatim>\<open>JSON.stringify(value, null, 2)\<close>, \<open>version_field\<close> is \<open>None\<close> when reading
  the field throws (the document is \<^verbatim>\<open>null\<close>) and \<open>Other\<close> when the field is no string.
\<close>

record 'j JSON =
  parse :: "string \<Rightarrow> 'j option"
  stringify :: "'j \<Rightarrow> string"
  version_field :: "'j \<Rightarrow> jsvalue option"
  set_version :: "'j \<Rightarrow> string \<Rightarrow> 'j"

definition packageJsonPath :: string where
  "packageJsonPath = ''package.json''"

definition indexTsPath :: string where
  "indexTsPath = ''src/index.ts''"

definition colorLog :: "message \<Rightarrow> world \<Rightarrow> world" where
  "colorLog m w = w\<lparr>console := console w @ [m]\<rparr>"

text \<open>
  \<^verbatim>\<open>fs.readFileSync\<close> of a path is its entry in \<open>files\<close>, and throws when there is none
  (the path is missing or is a directory). \<^verbatim>\<open>fs.writeFileSync\<close> is \<open>None\<close> when it throws.
\<close>

definition writeFileSync :: "string \<Rightarrow> string \<Rightarrow> world \<Rightarrow> world option" where
  "writeFileSync path content w =
     (if write_fails w path then None
      else Some (w\<lparr>files := (files w)(path \<mapsto> content), writes := writes w @ [path]\<rparr>))"

definition readPackageJson :: "'j JSON \<Rightarrow> world \<Rightarrow> 'j outcome" where
  "readPackageJson J w =
     (case files w packageJsonPath of
        None \<Rightarrow> Exit 1 (colorLog ErrorReadingPackageJson w)
      | Some text \<Rightarrow>
          (case parse J text of
             None \<Rightarrow> Exit 1 (colorLog ErrorReadingPackageJson w)
           | Some packageJson \<Rightarrow> Return packageJson w))"

definition writePackageJson :: "'j JSON \<Rightarrow> 'j \<Rightarrow> world \<Rightarrow> unit outcome" where
  "writePackageJson J packageJson w =
     (case writeFileSync packageJsonPath (stringify J packageJson @ [CHR 0x0A]) w of
        None \<Rightarrow> Exit 1 (colorLog ErrorWritingPackageJson w)
      | Some w' \<Rightarrow> Return () (colorLog PackageJsonUpdated w'))"

text \<open>\<^verbatim>\<open>String.prototype.trim\<close>.\<close>

definition trim :: "string \<Rightarrow> string" where
  "trim s = rev (dropWhile isWhiteSpace (rev (dropWhile isWhiteSpace s)))"

definition runGitCommand :: "string \<Rightarrow> world \<Rightarrow> string option \<times> world" where
  "runGitCommand command w =
     (map_option trim (exec_output w command), w\<lparr>git_commands := git_commands w @ [command]\<rparr>)"

definition checkGitStatus :: "world \<Rightarrow> bool \<times> world" where
  "checkGitStatus w =
     (case runGitCommand ''git status --porcelain'' w of
        (None, w1) \<Rightarrow> (False, colorLog GitNotAvailable w1)
      | (Some status, w1) \<Rightarrow>
          if length status > 0 then (False, colorLog (UncommittedChanges status) w1)
          else (True, w1))"

definition createGitTag :: "string \<Rightarrow> world \<Rightarrow> world" where
  "createGitTag version w =
     (let w1 = snd (runGitCommand ''git add package.json'' w);
          w2 = snd (runGitCommand (''git commit -m '' @ [CHR 0x22] @ ''chore: bump version to ''
                                   @ version @ [CHR 0x22]) w1);
          w3 = snd (runGitCommand (''git tag v'' @ version) w2)
      in colorLog (GitTagCreated version) w3)"

definition showHelp :: "world \<Rightarrow> world" where
  "showHelp w = colorLog HelpText w"

definition validBumpTypes :: "string list" where
  "validBumpTypes = [''patch'', ''minor'', ''major'', ''prepatch'', ''preminor'', ''premajor'', ''prerelease'']"

text \<open>
  The update of the version literal in the source file, lines 266 to 276 of the script;
  \<open>None\<close> when \<^verbatim>\<open>readFileSync\<close> throws (the path exists and is no readable file) or
  \<^verbatim>\<open>writeFileSync\<close> throws.
\<close>

definition updateIndexTs :: "string \<Rightarrow> world \<Rightarrow> world option" where
  "updateIndexTs newVersion w =
     (case files w indexTsPath of
        None \<Rightarrow> if unreadable w indexTsPath then None else Some w
      | Some content \<Rightarrow>
          if versionRegex_search [] content \<noteq> None
          then (case writeFileSync indexTsPath
                       (replace_versionRegex content
                          (''return '' @ [CHR 0x22] @ newVersion @ [CHR 0x22] @ '';'')) w of
                  None \<Rightarrow> None
                | Some w' \<Rightarrow> Some (colorLog UpdatedIndexTs w'))
          else Some w)"

text \<open>
  The function \<^verbatim>\<open>main\<close>: the exit code of the process and the world it leaves. Reading
  \<^verbatim>\<open>packageJson.version\<close> is outside the \<^verbatim>\<open>try\<close> block, so an exception there is not caught
  and ends the process with code 1; an exception of \<^verbatim>\<open>bumpVersion\<close> or of the update of
  the source file is caught, printed and followed by \<^verbatim>\<open>process.exit(1)\<close>.
\<close>

definition main :: "'j JSON \<Rightarrow> string list \<Rightarrow> world \<Rightarrow> nat \<times> world" where
  "main J args w =
     (let noGit = (''--no-git'' \<in> set args);
          dryRun = (''--dry-run'' \<in> set args)
      in case args of
           [] \<Rightarrow> (0, showHelp w)
         | bumpType # _ \<Rightarrow>
             if bumpType = [] \<or> bumpType = ''help'' then (0, showHelp w)
             else (case readPackageJson J w of
                     Exit code w' \<Rightarrow> (code, w')
                   | Return packageJson w1 \<Rightarrow>
                       (case version_field J packageJson of
                          None \<Rightarrow> (1, colorLog UncaughtException w1)
                        | Some currentVersion \<Rightarrow>
                            if bumpType = ''current'' then (0, colorLog (CurrentVersion currentVersion) w1)
                            else if bumpType \<notin> set validBumpTypes
                            then (1, colorLog (InvalidBumpTypeMsg bumpType) w1)
                            else (case currentVersion of
                                    Other \<Rightarrow> (1, colorLog (ErrorMsg TypeError) w1)
                                  | Str cv \<Rightarrow>
                                      (case bumpVersion cv bumpType of
                                         Inl e \<Rightarrow> (1, colorLog (ErrorMsg e) w1)
                                       | Inr newVersion \<Rightarrow>
                                           (let w2 = colorLog (VersionChange cv newVersion) w1
                                            in if dryRun then (0, colorLog DryRunNotice w2)
                                               else (let (canUseGit, w3) =
                                                           (if \<not> noGit then checkGitStatus w2
                                                            else (False, w2))
                                                     in case writePackageJson J
                                                               (set_version J packageJson newVersion) w3 of
                                                          Exit code w' \<Rightarrow> (code, w')
                                                        | Return _ w4 \<Rightarrow>
                                                            (case updateIndexTs newVersion w4 of
                                                               None \<Rightarrow>
                                                                 (1, colorLog (ErrorMsg (SystemError indexTsPath)) w4)
                                                             | Some w5 \<Rightarrow>
                                                                 (let w6 = (if canUseGit
                                                                            then createGitTag newVersion w5
                                                                            else w5)
                                                                  in (0, colorLog (Success newVersion) w6))))))))))"

subsection \<open>A concrete world\<close>

text \<open>
  A JSON library for manifests that are reduced to their version: the document is the
  version string itself.
\<close>

definition example_JSON :: "string JSON" where
  "example_JSON =
     \<lparr>parse = Some, stringify = (\<lambda>d. d), version_field = (\<lambda>d. Some (Str d)),
      set_version = (\<lambda>d v. v)\<rparr>"

text \<open>
  A working directory that holds the manifest and the source file, both writable, in a
  clean repository where every command succeeds and prints nothing.
\<close>

definition example_world :: "string \<Rightarrow> string \<Rightarrow> world" where
  "example_world manifest source =
     \<lparr>files = [packageJsonPath \<mapsto> manifest, indexTsPath \<mapsto> source],
      unreadable = (\<lambda>path. False),
      write_fails = (\<lambda>path. False),
      exec_output = (\<lambda>command. Some []),
      writes = [],
      git_commands = [],
      console = []\<rparr>"

section \<open>Rounding to a double\<close>

lemma to_double_exact [simp]: "\<bar>x\<bar> \<le> 9007199254740992 \<Longrightarrow> to_double x = x"
  by (simp add: to_double_def)

text \<open>
  Above \<open>2^53\<close> the doubles are the even integers: \<open>2^53 + 1\<close> lies half way between
  two of them and goes to the one of even significand, \<open>2^53\<close>.
\<close>

lemma to_double_2_53_plus_1: "to_double 9007199254740993 = 9007199254740992"
  by (simp add: to_double_def Let_def excess_bits.simps)

lemma to_double_minus_2_53_minus_1: "to_double (- 9007199254740993) = - 9007199254740992"
  by (simp add: to_double_def Let_def excess_bits.simps)

lemma to_double_2_53_plus_3: "to_double 9007199254740995 = 9007199254740996"
  by (simp add: to_double_def Let_def excess_bits.simps)

section \<open>Numerals and their digits\<close>

lemma digit_char_numerals:
  "digit_char 0 = CHR ''0''" "digit_char 1 = CHR ''1''" "digit_char 2 = CHR ''2''"
  "digit_char 3 = CHR ''3''" "digit_char 4 = CHR ''4''" "digit_char 5 = CHR ''5''"
  "digit_char 6 = CHR ''6''" "digit_char 7 = CHR ''7''" "digit_char 8 = CHR ''8''"
  "digit_char 9 = CHR ''9''" "digit_char (Suc 0) = CHR ''1''"
  by code_simp+

lemma of_char_digit_char: "d < 10 \<Longrightarrow> (of_char (digit_char d) :: nat) = d + 48"
  by (simp add: digit_char_def)

lemma isDigit_digit_char: "d < 10 \<Longrightarrow> isDigit (digit_char d)"
  by (simp add: isDigit_def of_char_digit_char)

lemma digit_value_digit_char: "d < 10 \<Longrightarrow> digit_value (digit_char d) = Some d"
  by (simp add: digit_value_def isDigit_digit_char of_char_digit_char)

lemma decimal_digits: "list_all isDigit (decimal n)"
  by (induction n rule: decimal.induct) (subst decimal.simps, simp add: isDigit_digit_char)

lemma decimal_nonempty: "decimal n \<noteq> []"
  by (subst decimal.simps) simp

lemma radix_value_snoc:
  "radix_value R (z @ [c]) = radix_value R z * R + (case digit_value c of None \<Rightarrow> 0 | Some d \<Rightarrow> d)"
  by (simp add: radix_value_def)

lemma radix_value_decimal: "radix_value 10 (decimal n) = n"
proof (induction n rule: decimal.induct)
  case (1 n)
  show ?case
  proof (cases "n < 10")
    case True
    then show ?thesis
      by (subst decimal.simps) (simp add: radix_value_def digit_value_digit_char)
  next
    case False
    with 1 have "radix_value 10 (decimal (n div 10)) = n div 10" by simp
    with False show ?thesis
      by (subst decimal.simps) (simp add: radix_value_snoc digit_value_digit_char)
  qed
qed

subsection \<open>Splitting at a separator\<close>

lemma split_no_sep: "sep \<notin> set s \<Longrightarrow> split sep s = [s]"
  by (induction s) auto

lemma split_two: "sep \<notin> set a \<Longrightarrow> sep \<notin> set b \<Longrightarrow> split sep (a @ sep # b) = [a, b]"
  by (induction a) (auto simp: split_no_sep)

lemma split_nonempty: "split sep s \<noteq> []"
  by (induction s) (auto split: list.splits)


lemma split_one_D: "split sep s = [b] \<Longrightarrow> s = b \<and> sep \<notin> set b"
proof (induction s arbitrary: b)
  case Nil
  then show ?case by auto
next
  case (Cons c cs)
  obtain p ps where sp: "split sep cs = p # ps"
    using split_nonempty [of sep cs] by (cases "split sep cs") auto
  show ?case
  proof (cases "c = sep")
    case True
    then show ?thesis using Cons.prems sp by simp
  next
    case False
    with Cons.prems sp have b: "b = c # p" and "split sep cs = [p]" by auto
    with Cons.IH [of p] have "cs = p \<and> sep \<notin> set p" by simp
    with b False show ?thesis by auto
  qed
qed

lemma split_two_D:
  "split sep s = [a, b] \<Longrightarrow> s = a @ sep # b \<and> sep \<notin> set a \<and> sep \<notin> set b"
proof (induction s arbitrary: a)
  case Nil
  then show ?case by simp
next
  case (Cons c cs)
  obtain p ps where sp: "split sep cs = p # ps"
    using split_nonempty [of sep cs] by (cases "split sep cs") auto
  show ?case
  proof (cases "c = sep")
    case True
    with Cons.prems have "a = []" and "split sep cs = [b]" by auto
    with True split_one_D [of sep cs b] show ?thesis by simp
  next
    case False
    with Cons.prems sp have a: "a = c # p" and "split sep cs = [p, b]" by auto
    with Cons.IH [of p] have "cs = p @ sep # b \<and> sep \<notin> set p \<and> sep \<notin> set b" by simp
    with a False show ?thesis by auto
  qed
qed

subsection \<open>Reading integers\<close>

lemma isDigit_facts:
  assumes "isDigit c"
  shows "\<not> isWhiteSpace c" "c \<noteq> CHR ''-''" "c \<noteq> CHR ''+''" "c \<noteq> CHR ''x''" "c \<noteq> CHR ''X''"
    "c \<noteq> CHR ''.''" "isRadixDigit 10 c" "\<not> isLineTerminator c"
  using assms
  by (auto simp: isDigit_def isWhiteSpace_def isRadixDigit_def digit_value_def isLineTerminator_def)


text \<open>
  What \<^verbatim>\<open>parseInt\<close> reads from a string that starts with a decimal numeral, with or
  without a minus sign: the value of the numeral, rounded to a double, whatever follows
  the numeral (the prefix \<^verbatim>\<open>0x\<close> apart, which selects radix 16).
\<close>

lemma parseInt_decimal_prefix:
  assumes "digits ds" and "rest = [] \<or> \<not> isRadixDigit 10 (hd rest)"
    and "\<not> (ds = ''0'' \<and> rest \<noteq> [] \<and> (hd rest = CHR ''x'' \<or> hd rest = CHR ''X''))"
  shows "parseInt (ds @ rest) = Num (to_double (int (radix_value 10 ds)))"
    and "parseInt (CHR ''-'' # ds @ rest) = Num (- to_double (int (radix_value 10 ds)))"
proof -
  have all: "list_all isDigit ds" and ne: "ds \<noteq> []" using assms(1) by (simp_all add: digits_def)
  obtain c r where ds: "ds = c # r" using ne by (cases ds) auto
  have c: "isDigit c" using all ds by simp
  have nohex: "(case ds @ rest of a # b # _ \<Rightarrow> a = CHR ''0'' \<and> (b = CHR ''x'' \<or> b = CHR ''X'') | _ \<Rightarrow> False)
               = False"
  proof (cases r)
    case Nil
    with assms(3) ds show ?thesis by (cases rest) auto
  next
    case (Cons b r')
    with all ds have "isDigit b" by simp
    with Cons ds isDigit_facts(4,5) [of b] show ?thesis by auto
  qed
  have r: "takeWhile (isRadixDigit 10) rest = []"
    using assms(2) by (cases rest) auto
  have take: "takeWhile (isRadixDigit 10) (ds @ rest) = ds"
    using all r by (simp add: takeWhile_append2 list_all_iff isDigit_facts(7))
  have drop: "dropWhile isWhiteSpace (ds @ rest) = ds @ rest"
    using ds isDigit_facts(1) [OF c] by simp
  have sign: "(case ds @ rest of c # _ \<Rightarrow> if c = CHR ''-'' then - 1 else 1 | [] \<Rightarrow> (1 :: int)) = 1"
    using ds isDigit_facts(2) [OF c] by simp
  have S1: "(case ds @ rest of c # r \<Rightarrow> if c = CHR ''-'' \<or> c = CHR ''+'' then r else ds @ rest
             | [] \<Rightarrow> ds @ rest) = ds @ rest"
    using ds isDigit_facts(2,3) [OF c] by simp
  show "parseInt (ds @ rest) = Num (to_double (int (radix_value 10 ds)))"
    by (simp only: parseInt_def Let_def drop sign S1 nohex if_False take ne mult_1)
  have drop': "dropWhile isWhiteSpace (CHR ''-'' # ds @ rest) = CHR ''-'' # ds @ rest"
    by (simp add: isWhiteSpace_def)
  have sign': "(case CHR ''-'' # ds @ rest of c # _ \<Rightarrow> if c = CHR ''-'' then - 1 else 1 | [] \<Rightarrow> (1 :: int))
               = - 1"
    by simp
  have S1': "(case CHR ''-'' # ds @ rest of c # r \<Rightarrow> if c = CHR ''-'' \<or> c = CHR ''+'' then r
                else CHR ''-'' # ds @ rest | [] \<Rightarrow> CHR ''-'' # ds @ rest) = ds @ rest"
    by simp
  show "parseInt (CHR ''-'' # ds @ rest) = Num (- to_double (int (radix_value 10 ds)))"
    by (simp only: parseInt_def Let_def drop' sign' S1' nohex if_False take ne) simp
qed

lemma parseInt_digits:
  assumes "ds \<noteq> []" and "list_all isDigit ds"
  shows "parseInt ds = Num (to_double (int (radix_value 10 ds)))"
  using assms parseInt_decimal_prefix(1) [of ds "[]"] by (simp add: digits_def)

lemma parseInt_decimal: "int n \<le> 9007199254740992 \<Longrightarrow> parseInt (decimal n) = Num (int n)"
  by (simp add: parseInt_digits decimal_nonempty decimal_digits radix_value_decimal)

lemma parseInt_minus_digits:
  assumes "ds \<noteq> []" and "list_all isDigit ds"
  shows "parseInt (CHR ''-'' # ds) = Num (- to_double (int (radix_value 10 ds)))"
  using assms parseInt_decimal_prefix(2) [of ds "[]"] by (simp add: digits_def)

lemma parseInt_toString: "\<bar>i\<bar> \<le> 9007199254740992 \<Longrightarrow> parseInt (toString (Num i)) = Num i"
  by (simp add: parseInt_decimal parseInt_minus_digits decimal_nonempty decimal_digits radix_value_decimal)

lemma toString_no_dot: "CHR ''.'' \<notin> set (toString (Num i))"
  using decimal_digits isDigit_facts(6) by (auto simp: list_all_iff)

section \<open>The matcher of version strings\<close>

lemma digit_group_append:
  assumes "digits ds" and "rest = [] \<or> \<not> isDigit (hd rest)"
  shows "digit_group (ds @ rest) = Some (ds, rest)"
proof -
  have all: "\<forall>x\<in>set ds. isDigit x" using assms(1) by (simp add: digits_def list_all_iff)
  have r: "takeWhile isDigit rest = []" "dropWhile isDigit rest = rest"
    using assms(2) by (cases rest; simp)+
  have "takeWhile isDigit (ds @ rest) = ds" "dropWhile isDigit (ds @ rest) = rest"
    using all r by (simp_all add: takeWhile_append2 dropWhile_append2)
  then show ?thesis using assms(1) by (simp add: digit_group_def class_run_def digits_def)
qed

lemma digit_group_SomeD:
  assumes "digit_group s = Some (m, r)"
  shows "s = m @ r \<and> digits m \<and> (r = [] \<or> \<not> isDigit (hd r))"
proof -
  from assms have m: "m = takeWhile isDigit s" and r: "r = dropWhile isDigit s" and ne: "m \<noteq> []"
    by (auto simp: digit_group_def class_run_def split: if_splits)
  have "list_all isDigit m" unfolding m list_all_iff by (auto dest: set_takeWhileD)
  moreover have "r = [] \<or> \<not> isDigit (hd r)"
    unfolding r using hd_dropWhile [of isDigit s] by blast
  ultimately show ?thesis using m r ne by (simp add: digits_def)
qed

lemma literal_dot_Some: "literal_dot s = Some r \<longleftrightarrow> s = CHR ''.'' # r"
  by (cases s) (auto simp: literal_dot_def literal_def)

lemma match_version_grammar:
  assumes "digits a" and "digits b" and "digits c"
    and "suffix = [] \<or> (\<exists>p. suffix = ''-'' @ p \<and> p \<noteq> [] \<and> \<not> list_ex isLineTerminator p)"
  shows "match_version (a @ ''.'' @ b @ ''.'' @ c @ suffix)
         = Some (a, b, c, if suffix = [] then None else Some (tl suffix))"
proof -
  have nd: "\<not> isDigit (CHR ''.'')" "\<not> isDigit (CHR ''-'')" by (simp_all add: isDigit_def)
  have g1: "digit_group (a @ CHR ''.'' # b @ CHR ''.'' # c @ suffix)
            = Some (a, CHR ''.'' # b @ CHR ''.'' # c @ suffix)"
    using digit_group_append [OF assms(1), of "CHR ''.'' # b @ CHR ''.'' # c @ suffix"] nd by simp
  have g2: "digit_group (b @ CHR ''.'' # c @ suffix) = Some (b, CHR ''.'' # c @ suffix)"
    using digit_group_append [OF assms(2), of "CHR ''.'' # c @ suffix"] nd by simp
  have g3: "digit_group (c @ suffix) = Some (c, suffix)"
    using digit_group_append [OF assms(3), of suffix] nd assms(4) by auto
  show ?thesis
    using assms(4) g3 by (auto simp: match_version_def g1 g2 literal_dot_def literal_def)
qed

lemma match_version_SomeD:
  assumes "match_version s = Some (m1, m2, m3, m4)"
  shows "digits m1 \<and> digits m2 \<and> digits m3
         \<and> (case m4 of None \<Rightarrow> s = m1 @ ''.'' @ m2 @ ''.'' @ m3
            | Some p \<Rightarrow> s = m1 @ ''.'' @ m2 @ ''.'' @ m3 @ ''-'' @ p \<and> p \<noteq> [] \<and> \<not> list_ex isLineTerminator p)"
proof -
  obtain x1 r1 where g1: "digit_group s = Some (x1, r1)"
    using assms by (cases "digit_group s") (auto simp: match_version_def)
  obtain r2 where d1: "literal_dot r1 = Some r2"
    using assms g1 by (cases "literal_dot r1") (auto simp: match_version_def)
  obtain x2 r3 where g2: "digit_group r2 = Some (x2, r3)"
    using assms g1 d1 by (cases "digit_group r2") (auto simp: match_version_def)
  obtain r4 where d2: "literal_dot r3 = Some r4"
    using assms g1 d1 g2 by (cases "literal_dot r3") (auto simp: match_version_def)
  obtain x3 r5 where g3: "digit_group r4 = Some (x3, r5)"
    using assms g1 d1 g2 d2 by (cases "digit_group r4") (auto simp: match_version_def)
  have last: "(case r5 of [] \<Rightarrow> Some (x1, x2, x3, None)
       | c # p \<Rightarrow> if c = CHR ''-'' \<and> p \<noteq> [] \<and> \<not> list_ex isLineTerminator p
           then Some (x1, x2, x3, Some p) else None) = Some (m1, m2, m3, m4)"
    using assms g1 d1 g2 d2 g3 by (simp add: match_version_def)
  have x: "x1 = m1" "x2 = m2" "x3 = m3"
    using last by (cases r5; simp split: if_splits)+
  note g1 = g1 [unfolded x] and g2 = g2 [unfolded x] and g3 = g3 [unfolded x]
    and last = last [unfolded x]
  have s: "s = m1 @ ''.'' @ m2 @ ''.'' @ m3 @ r5"
    using digit_group_SomeD [OF g1] digit_group_SomeD [OF g2] digit_group_SomeD [OF g3] d1 d2
    by (simp add: literal_dot_Some)
  have dd: "digits m1" "digits m2" "digits m3"
    using digit_group_SomeD [OF g1] digit_group_SomeD [OF g2] digit_group_SomeD [OF g3] by simp_all
  show ?thesis
  proof (cases r5)
    case Nil
    with last s dd show ?thesis by auto
  next
    case (Cons x p)
    with last s dd show ?thesis by (auto split: if_splits)
  qed
qed

lemma script_grammar_match: "script_version_grammar s \<longleftrightarrow> match_version s \<noteq> None"
proof
  assume "script_version_grammar s"
  then obtain a b c suffix where "s = a @ ''.'' @ b @ ''.'' @ c @ suffix" "digits a" "digits b" "digits c"
    "suffix = [] \<or> (\<exists>p. suffix = ''-'' @ p \<and> p \<noteq> [] \<and> \<not> list_ex isLineTerminator p)"
    unfolding script_version_grammar_def version_grammar_def by blast
  then show "match_version s \<noteq> None"
    using match_version_grammar [of a b c suffix] by simp
next
  assume "match_version s \<noteq> None"
  then obtain m1 m2 m3 m4 where m: "match_version s = Some (m1, m2, m3, m4)"
    by (cases "match_version s") auto
  note d = match_version_SomeD [OF m]
  show "script_version_grammar s"
  proof (cases m4)
    case None
    with d have "s = m1 @ ''.'' @ m2 @ ''.'' @ m3 @ []" by simp
    with d show ?thesis
      unfolding script_version_grammar_def version_grammar_def by blast
  next
    case (Some p)
    with d have "s = m1 @ ''.'' @ m2 @ ''.'' @ m3 @ (''-'' @ p)" "p \<noteq> []" "\<not> list_ex isLineTerminator p"
      by simp_all
    with d show ?thesis
      unfolding script_version_grammar_def version_grammar_def by blast
  qed
qed

lemma grammar_no_excluded:
  assumes "version_grammar excluded s"
    and "\<And>x. isDigit x \<Longrightarrow> \<not> excluded x" and "\<not> excluded (CHR ''.'')" and "\<not> excluded (CHR ''-'')"
  shows "\<not> list_ex excluded s"
proof -
  from assms(1) obtain a b c suffix where s: "s = a @ ''.'' @ b @ ''.'' @ c @ suffix"
    and d: "digits a" "digits b" "digits c"
    and suf: "suffix = [] \<or> (\<exists>p. suffix = ''-'' @ p \<and> p \<noteq> [] \<and> \<not> list_ex excluded p)"
    unfolding version_grammar_def by blast
  have "\<And>m. digits m \<Longrightarrow> \<not> list_ex excluded m"
    using assms(2) by (auto simp: digits_def list_all_iff list_ex_iff)
  with d have "\<not> list_ex excluded a" "\<not> list_ex excluded b" "\<not> list_ex excluded c" by simp_all
  moreover have "\<not> list_ex excluded suffix" using suf assms(4) by auto
  ultimately show ?thesis using assms(3) by (auto simp: s list_ex_iff)
qed

subsection \<open>Parsing a formatted version\<close>

lemma toString_safe_natural: "0 \<le> a \<Longrightarrow> toString (Num a) = decimal (nat a)"
  by simp

lemma digits_decimal: "digits (decimal n)"
  by (simp add: digits_def decimal_nonempty decimal_digits)

lemma parseVersion_formatted:
  assumes "safe_natural (Num a)" and "safe_natural (Num b)" and "safe_natural (Num c)"
    and "suffix = [] \<or> (\<exists>p. suffix = ''-'' @ p \<and> p \<noteq> [] \<and> \<not> list_ex isLineTerminator p)"
  shows "parseVersion (toString (Num a) @ ''.'' @ toString (Num b) @ ''.'' @ toString (Num c) @ suffix)
         = Inr \<lparr>major = Num a, minor = Num b, patch = Num c,
                prerelease = (if suffix = [] then None else Some (tl suffix))\<rparr>"
proof -
  have m: "match_version (decimal (nat a) @ ''.'' @ decimal (nat b) @ ''.'' @ decimal (nat c) @ suffix)
         = Some (decimal (nat a), decimal (nat b), decimal (nat c),
                 if suffix = [] then None else Some (tl suffix))"
    by (rule match_version_grammar [OF digits_decimal digits_decimal digits_decimal assms(4)])
  have n: "0 \<le> a" "0 \<le> b" "0 \<le> c"
    and u: "a \<le> 9007199254740992" "b \<le> 9007199254740992" "c \<le> 9007199254740992"
    using assms(1-3) by (simp_all add: MAX_SAFE_INTEGER_def)
  show ?thesis
    unfolding toString_safe_natural [OF n(1)] toString_safe_natural [OF n(2)]
      toString_safe_natural [OF n(3)] parseVersion_def m
    using n u assms(4) by (auto simp: parseInt_decimal)
qed

subsection \<open>Numerals without a leading zero\<close>

lemma digit_char_of_digit: "isDigit d \<Longrightarrow> digit_char (of_char d - 48) = d"
  by (simp add: digit_char_def isDigit_def)

lemma digit_value_digit: "isDigit d \<Longrightarrow> digit_value d = Some (of_char d - 48)"
  by (simp add: digit_value_def)

lemma digit_value_less: "isDigit d \<Longrightarrow> (of_char d :: nat) - 48 < 10"
  by (auto simp: isDigit_def)

lemma digit_zero: "isDigit d \<Longrightarrow> (of_char d :: nat) - 48 = 0 \<longleftrightarrow> d = CHR ''0''"
proof -
  assume d: "isDigit d"
  have "(of_char d :: nat) - 48 = 0 \<longleftrightarrow> (of_char d :: nat) = 48"
    using d by (auto simp: isDigit_def)
  also have "\<dots> \<longleftrightarrow> (of_char d :: nat) = of_char (CHR ''0'')" by simp
  also have "\<dots> \<longleftrightarrow> d = CHR ''0''" by (simp only: of_char_eq_iff)
  finally show ?thesis .
qed

lemma decimal_radix_value_pos:
  "list_all isDigit m \<Longrightarrow> m \<noteq> [] \<Longrightarrow> hd m \<noteq> CHR ''0''
   \<Longrightarrow> decimal (radix_value 10 m) = m \<and> 0 < radix_value 10 m"
proof (induction m rule: rev_induct)
  case Nil
  then show ?case by simp
next
  case (snoc d m)
  have d: "isDigit d" using snoc.prems(1) by simp
  show ?case
  proof (cases "m = []")
    case True
    with snoc.prems have "d \<noteq> CHR ''0''" by simp
    then have "0 < (of_char d :: nat) - 48" using digit_zero [OF d] by simp
    then show ?thesis
      using True digit_value_less [OF d]
      by (simp add: radix_value_def digit_value_digit [OF d] decimal.simps digit_char_of_digit [OF d])
  next
    case False
    with snoc.prems have "list_all isDigit m" "hd m \<noteq> CHR ''0''" by simp_all
    with snoc.IH False have ih: "decimal (radix_value 10 m) = m" "0 < radix_value 10 m" by simp_all
    have v: "radix_value 10 (m @ [d]) = radix_value 10 m * 10 + (of_char d - 48)"
      by (simp add: radix_value_snoc digit_value_digit [OF d])
    have "decimal (radix_value 10 m * 10 + (of_char d - 48))
          = decimal (radix_value 10 m) @ [digit_char (of_char d - 48)]"
      using ih(2) digit_value_less [OF d] by (subst decimal.simps) simp
    then show ?thesis
      using ih v by (simp add: digit_char_of_digit [OF d])
  qed
qed

lemma decimal_canonical:
  assumes "canonical_numeral m"
  shows "decimal (radix_value 10 m) = m"
proof (cases "m = ''0''")
  case True
  then show ?thesis
    by (simp add: radix_value_def digit_value_def isDigit_def decimal.simps digit_char_numerals)
next
  case False
  with assms show ?thesis
    using decimal_radix_value_pos [of m] by (simp add: canonical_numeral_def digits_def)
qed

section \<open>The world in a run\<close>

lemma colorLog_fields:
  "files (colorLog m w) = files w" "writes (colorLog m w) = writes w"
  "git_commands (colorLog m w) = git_commands w" "write_fails (colorLog m w) = write_fails w"
  "unreadable (colorLog m w) = unreadable w"
  "exec_output (colorLog m w) = exec_output w" "console (colorLog m w) = console w @ [m]"
  by (simp_all add: colorLog_def)

lemma readPackageJson_cases:
  "(\<exists>packageJson text. files w packageJsonPath = Some text \<and> parse J text = Some packageJson
      \<and> readPackageJson J w = Return packageJson w)
   \<or> readPackageJson J w = Exit 1 (colorLog ErrorReadingPackageJson w)"
  by (auto simp: readPackageJson_def split: option.splits)

lemmas run_eval =
  main_def Let_def showHelp_def colorLog_def readPackageJson_def writePackageJson_def
  writeFileSync_def updateIndexTs_def checkGitStatus_def runGitCommand_def createGitTag_def
  trim_def validBumpTypes_def packageJsonPath_def indexTsPath_def example_JSON_def
  example_world_def replace_versionRegex_def versionRegex_search.simps versionRegex_at_def class_char_def
  isQuote_def isVersionChar_def isQualifierChar_def isWordChar_def
  bumpVersion_def parseVersion_def match_version_def digit_group_def class_run_def literal_dot_def literal_def isDigit_def
  bump_def bump_prerelease_def parseInt_def isNaN_def formatVersion_def isWhiteSpace_def
  isRadixDigit_def digit_value_def radix_value_def decimal.simps digit_char_numerals
  isLineTerminator_def

section \<open>The pattern, the source file and the commit\<close>

lemma literal_SomeD:
  assumes "literal l s = Some r"
  shows "s = l @ r"
proof -
  from assms have "take (length l) s = l" and "r = drop (length l) s"
    by (auto simp: literal_def split: if_splits)
  then show ?thesis using append_take_drop_id [of "length l" s] by metis
qed

lemma class_run_SomeD: "class_run C s = Some (x, r) \<Longrightarrow> s = x @ r"
  by (auto simp: class_run_def split: if_splits)

lemma class_char_SomeD: "class_char C s = Some (c, r) \<Longrightarrow> s = c # r \<and> C c"
  by (auto simp: class_char_def split: list.splits if_splits)

lemma GetSubstitution_no_dollar:
  "CHR ''$'' \<notin> set t \<Longrightarrow> GetSubstitution m p g a t = t"
  by (induction m p g a t rule: GetSubstitution.induct) auto

text \<open>
  The matcher agrees with the regular expression: what it returns is a text of the
  language of the expression at the start of the string, and every such text is found.
\<close>

lemma class_run_SomeD':
  assumes "class_run C s = Some (x, r)"
  shows "s = x @ r \<and> x \<noteq> [] \<and> list_all C x"
proof -
  from assms have x: "x = takeWhile C s" and "r = dropWhile C s" and "x \<noteq> []"
    by (auto simp: class_run_def split: if_splits)
  moreover have "list_all C x" unfolding x list_all_iff by (auto dest: set_takeWhileD)
  ultimately show ?thesis by simp
qed

lemma class_run_append:
  assumes "xs \<noteq> []" and "list_all C xs" and "\<not> C y"
  shows "class_run C (xs @ y # ys) = Some (xs, y # ys)"
proof -
  have "takeWhile C (xs @ y # ys) = xs" "dropWhile C (xs @ y # ys) = y # ys"
    using assms(2,3) by (simp_all add: list_all_iff)
  then show ?thesis using assms(1) by (simp add: class_run_def)
qed

lemma isQuote_facts:
  assumes "isQuote q"
  shows "\<not> isWhiteSpace q" "\<not> isVersionChar q" "\<not> isQualifierChar q"
  using assms
  by (auto simp: isQuote_def isWhiteSpace_def isVersionChar_def isQualifierChar_def isWordChar_def
      isDigit_def)

lemma versionRegex_at_sound:
  assumes "versionRegex_at s = Some (m, g, rest)"
  shows "versionRegex_language m \<and> s = m @ rest"
proof -
  obtain r1 where 1: "literal ''return'' s = Some r1"
    using assms by (cases "literal ''return'' s") (auto simp: versionRegex_at_def)
  obtain ws r2 where 2: "class_run isWhiteSpace r1 = Some (ws, r2)"
    using assms 1 by (cases "class_run isWhiteSpace r1") (auto simp: versionRegex_at_def)
  obtain q1 r3 where 3: "class_char isQuote r2 = Some (q1, r3)"
    using assms 1 2 by (cases "class_char isQuote r2") (auto simp: versionRegex_at_def)
  obtain num r4 where 4: "class_run isVersionChar r3 = Some (num, r4)"
    using assms 1 2 3 by (cases "class_run isVersionChar r3") (auto simp: versionRegex_at_def)
  define qual where "qual = takeWhile isQualifierChar r4"
  define r5 where "r5 = dropWhile isQualifierChar r4"
  have 5: "r4 = qual @ r5" by (simp add: qual_def r5_def)
  have q: "list_all isQualifierChar qual"
    unfolding qual_def list_all_iff by (auto dest: set_takeWhileD)
  obtain q2 r6 where 6: "class_char isQuote r5 = Some (q2, r6)"
    using assms 1 2 3 4
    by (cases "class_char isQuote r5") (auto simp: versionRegex_at_def Let_def r5_def)
  obtain semi r7 where 7: "class_char (\<lambda>c. c = CHR '';'') r6 = Some (semi, r7)"
    using assms 1 2 3 4 6
    by (cases "class_char (\<lambda>c. c = CHR '';'') r6") (auto simp: versionRegex_at_def Let_def r5_def)
  have m: "m = ''return'' @ ws @ [q1] @ num @ qual @ [q2] @ [semi]" and r: "rest = r7"
    using assms 1 2 3 4 6 7 by (auto simp: versionRegex_at_def Let_def r5_def qual_def)
  have semi: "semi = CHR '';''" using class_char_SomeD [OF 7] by simp
  have "versionRegex_language m"
    unfolding versionRegex_language_def
    using class_run_SomeD' [OF 2] class_char_SomeD [OF 3] class_run_SomeD' [OF 4] q
      class_char_SomeD [OF 6] m semi
    by (intro exI [of _ ws] exI [of _ q1] exI [of _ num] exI [of _ qual] exI [of _ q2]) simp
  moreover have "s = m @ rest"
    using literal_SomeD [OF 1] class_run_SomeD [OF 2] class_char_SomeD [OF 3]
      class_run_SomeD [OF 4] 5 class_char_SomeD [OF 6] class_char_SomeD [OF 7]
    by (simp add: m r)
  ultimately show ?thesis by simp
qed

lemma versionRegex_at_complete:
  assumes "versionRegex_language m"
  shows "\<exists>g. versionRegex_at (m @ rest) = Some (m, g, rest)"
proof -
  from assms obtain ws q1 num qual q2 where
    m: "m = ''return'' @ ws @ [q1] @ num @ qual @ [q2] @ '';''"
    and ws: "ws \<noteq> []" "list_all isWhiteSpace ws" and q1: "isQuote q1"
    and num: "num \<noteq> []" "list_all isVersionChar num"
    and qual: "list_all isQualifierChar qual" and q2: "isQuote q2"
    unfolding versionRegex_language_def by blast
  define tq where "tq = takeWhile isVersionChar qual"
  define dq where "dq = dropWhile isVersionChar qual"
  have tdq: "qual = tq @ dq" by (simp add: tq_def dq_def)
  have tq: "list_all isVersionChar tq" unfolding tq_def list_all_iff by (auto dest: set_takeWhileD)
  have dq: "list_all isQualifierChar dq" using qual tdq by simp
  have dq_hd: "dq = [] \<or> \<not> isVersionChar (hd dq)"
    unfolding dq_def using hd_dropWhile [of isVersionChar qual] by blast
  have 1: "literal ''return'' (m @ rest) = Some (ws @ q1 # num @ qual @ q2 # CHR '';'' # rest)"
    by (simp add: literal_def m)
  have 2: "class_run isWhiteSpace (ws @ q1 # num @ qual @ q2 # CHR '';'' # rest)
           = Some (ws, q1 # num @ qual @ q2 # CHR '';'' # rest)"
    using ws isQuote_facts(1) [OF q1] by (rule class_run_append)
  have 3: "class_char isQuote (q1 # num @ qual @ q2 # CHR '';'' # rest)
           = Some (q1, num @ qual @ q2 # CHR '';'' # rest)"
    using q1 by (simp add: class_char_def)
  have 4: "class_run isVersionChar (num @ qual @ q2 # CHR '';'' # rest)
           = Some (num @ tq, dq @ q2 # CHR '';'' # rest)"
  proof (cases dq)
    case Nil
    have "class_run isVersionChar ((num @ tq) @ q2 # CHR '';'' # rest)
          = Some (num @ tq, q2 # CHR '';'' # rest)"
      using num tq isQuote_facts(2) [OF q2] by (intro class_run_append) simp_all
    with Nil tdq show ?thesis by simp
  next
    case (Cons y ys)
    with dq_hd have "\<not> isVersionChar y" by simp
    then have "class_run isVersionChar ((num @ tq) @ y # ys @ q2 # CHR '';'' # rest)
          = Some (num @ tq, y # ys @ q2 # CHR '';'' # rest)"
      using num tq by (intro class_run_append) simp_all
    with Cons tdq show ?thesis by simp
  qed
  have 5: "takeWhile isQualifierChar (dq @ q2 # CHR '';'' # rest) = dq"
    "dropWhile isQualifierChar (dq @ q2 # CHR '';'' # rest) = q2 # CHR '';'' # rest"
    using dq isQuote_facts(3) [OF q2] by (simp_all add: list_all_iff)
  have 6: "class_char isQuote (q2 # CHR '';'' # rest) = Some (q2, CHR '';'' # rest)"
    using q2 by (simp add: class_char_def)
  have 7: "class_char (\<lambda>c. c = CHR '';'') (CHR '';'' # rest) = Some (CHR '';'', rest)"
    by (simp add: class_char_def)
  have "versionRegex_at (m @ rest)
        = Some (''return'' @ ws @ [q1] @ (num @ tq) @ dq @ [q2] @ [CHR '';''], dq, rest)"
    unfolding versionRegex_at_def 1 by (simp add: 2 3 4 5 6 7 del: append_assoc)
  then show ?thesis using m tdq by simp
qed

lemma versionRegex_at_decomp:
  "versionRegex_at s = Some (m, g, rest) \<Longrightarrow> s = m @ rest"
  using versionRegex_at_sound by blast

lemma versionRegex_search_decomp:
  "versionRegex_search pre s = Some (b, m, g, a) \<Longrightarrow> pre @ s = b @ m @ a"
proof (induction pre s rule: versionRegex_search.induct)
  case (1 pre s)
  show ?case
  proof (cases "versionRegex_at s")
    case None
    with "1.prems" have *: "(case s of [] \<Rightarrow> None | c # cs \<Rightarrow> versionRegex_search (pre @ [c]) cs)
        = Some (b, m, g, a)"
      by (simp add: versionRegex_search.simps [of pre s])
    then obtain c cs where s: "s = c # cs" by (cases s) auto
    with * have "versionRegex_search (pre @ [c]) cs = Some (b, m, g, a)" by simp
    with "1.IH" [OF None s] show ?thesis using s by simp
  next
    case (Some r)
    obtain m' g' rest where r: "r = (m', g', rest)" by (cases r) auto
    with Some "1.prems" have "b = pre" "m = m'" "a = rest"
      by (simp_all add: versionRegex_search.simps [of pre s])
    with Some r versionRegex_at_decomp [of s m' g' rest] show ?thesis by simp
  qed
qed

lemma versionRegex_search_leftmost:
  "versionRegex_search pre s = Some (b, m, g, a) \<Longrightarrow> length pre \<le> length b
   \<and> (\<forall>k < length b - length pre. versionRegex_at (drop k s) = None)
   \<and> versionRegex_at (drop (length b - length pre) s) = Some (m, g, a)"
proof (induction pre s rule: versionRegex_search.induct)
  case (1 pre s)
  show ?case
  proof (cases "versionRegex_at s")
    case None
    with "1.prems" have *: "(case s of [] \<Rightarrow> None | c # cs \<Rightarrow> versionRegex_search (pre @ [c]) cs)
        = Some (b, m, g, a)"
      by (simp add: versionRegex_search.simps [of pre s])
    then obtain c cs where s: "s = c # cs" by (cases s) auto
    with * have "versionRegex_search (pre @ [c]) cs = Some (b, m, g, a)" by simp
    with "1.IH" [OF None s] have ih: "length pre + 1 \<le> length b"
      "\<forall>k < length b - (length pre + 1). versionRegex_at (drop k cs) = None"
      "versionRegex_at (drop (length b - (length pre + 1)) cs) = Some (m, g, a)"
      by simp_all
    have d: "length b - length pre = Suc (length b - (length pre + 1))"
      using ih(1) by simp
    have "versionRegex_at (drop k s) = None" if "k < length b - length pre" for k
    proof (cases k)
      case 0
      with None show ?thesis by simp
    next
      case (Suc j)
      with that d have "j < length b - (length pre + 1)" by simp
      with ih(2) Suc s show ?thesis by simp
    qed
    moreover have "versionRegex_at (drop (length b - length pre) s) = Some (m, g, a)"
      using ih(3) s d by simp
    ultimately show ?thesis using ih(1) by simp
  next
    case (Some r)
    obtain m' g' rest where r: "r = (m', g', rest)" by (cases r) auto
    with Some "1.prems" have "b = pre" "m = m'" "g = g'" "a = rest"
      by (simp_all add: versionRegex_search.simps [of pre s])
    with Some r show ?thesis by simp
  qed
qed

lemma updateIndexTs_absent:
  "files w indexTsPath = None \<Longrightarrow> \<not> unreadable w indexTsPath \<Longrightarrow> updateIndexTs newVersion w = Some w"
  by (simp add: updateIndexTs_def)

lemma updateIndexTs_no_match:
  "files w indexTsPath = Some content \<Longrightarrow> versionRegex_search [] content = None
   \<Longrightarrow> updateIndexTs newVersion w = Some w"
  by (simp add: updateIndexTs_def)

lemma updateIndexTs_first_match:
  assumes "files w indexTsPath = Some content"
    and "versionRegex_search [] content = Some (b, m, g, a)"
    and "CHR ''$'' \<notin> set newVersion" and "\<not> write_fails w indexTsPath"
  shows "content = b @ m @ a
       \<and> updateIndexTs newVersion w
           = Some (colorLog UpdatedIndexTs
                (w\<lparr>files := (files w)(indexTsPath \<mapsto> b @ ''return '' @ [CHR 0x22] @ newVersion @ [CHR 0x22] @ '';'' @ a),
                   writes := writes w @ [indexTsPath]\<rparr>))"
proof -
  have "CHR ''$'' \<notin> set (''return '' @ [CHR 0x22] @ newVersion @ [CHR 0x22] @ '';'')"
    using assms(3) by simp
  then have "GetSubstitution m b g a (''return '' @ [CHR 0x22] @ newVersion @ [CHR 0x22] @ '';'')
             = ''return '' @ [CHR 0x22] @ newVersion @ [CHR 0x22] @ '';''"
    by (rule GetSubstitution_no_dollar)
  then have "replace_versionRegex content (''return '' @ [CHR 0x22] @ newVersion @ [CHR 0x22] @ '';'')
             = b @ ''return '' @ [CHR 0x22] @ newVersion @ [CHR 0x22] @ '';'' @ a"
    by (simp add: replace_versionRegex_def assms(2))
  then show ?thesis
    using assms versionRegex_search_decomp [OF assms(2)]
    by (simp add: updateIndexTs_def writeFileSync_def)
qed

lemma createGitTag_commands:
  "git_commands (createGitTag version w)
     = git_commands w @ [''git add package.json'',
                         ''git commit -m '' @ [CHR 0x22] @ ''chore: bump version to '' @ version @ [CHR 0x22],
                         ''git tag v'' @ version]"
  by (simp add: createGitTag_def runGitCommand_def colorLog_def Let_def)

section \<open>Bumping a version\<close>

text \<open>The five scenarios of the specification that end in a new version.\<close>

lemma bumpVersion_scenarios:
  "bumpVersion ''1.2.3'' ''patch'' = Inr ''1.2.4''"
  "bumpVersion ''1.0.0'' ''prepatch'' = Inr ''1.0.1-alpha.0''"
  "bumpVersion ''1.0.1-alpha.0'' ''prerelease'' = Inr ''1.0.1-alpha.1''"
  "bumpVersion ''1.0.1-alpha.1'' ''patch'' = Inr ''1.0.2''"
  "bumpVersion ''2.5.9'' ''major'' = Inr ''3.0.0''"
  by (simp_all add: bumpVersion_def parseVersion_def match_version_def digit_group_def class_run_def
      literal_dot_def literal_def isDigit_def bump_def bump_prerelease_def parseInt_def isNaN_def
      formatVersion_def isWhiteSpace_def isRadixDigit_def digit_value_def radix_value_def
      decimal.simps digit_char_numerals isLineTerminator_def)

text \<open>
  Claim C2, as amended. For every valid version whose components are at most
  \<^verbatim>\<open>Number.MAX_SAFE_INTEGER\<close>, the kinds \<^verbatim>\<open>major\<close>, \<^verbatim>\<open>minor\<close> and \<^verbatim>\<open>patch\<close> increment their
  component, reset the components to the right of it to 0 and clear the prerelease;
  \<^verbatim>\<open>premajor\<close>, \<^verbatim>\<open>preminor\<close> and \<^verbatim>\<open>prepatch\<close> make the same numeric change and set the
  prerelease to exactly \<^verbatim>\<open>alpha.0\<close>.
\<close>

theorem bump_release_and_pre_kinds:
  assumes "valid_version \<lparr>major = Num a, minor = Num b, patch = Num c, prerelease = p\<rparr>"
  shows "bump \<lparr>major = Num a, minor = Num b, patch = Num c, prerelease = p\<rparr> ''major''
           = Inr \<lparr>major = Num (a + 1), minor = Num 0, patch = Num 0, prerelease = None\<rparr>
       \<and> bump \<lparr>major = Num a, minor = Num b, patch = Num c, prerelease = p\<rparr> ''minor''
           = Inr \<lparr>major = Num a, minor = Num (b + 1), patch = Num 0, prerelease = None\<rparr>
       \<and> bump \<lparr>major = Num a, minor = Num b, patch = Num c, prerelease = p\<rparr> ''patch''
           = Inr \<lparr>major = Num a, minor = Num b, patch = Num (c + 1), prerelease = None\<rparr>
       \<and> bump \<lparr>major = Num a, minor = Num b, patch = Num c, prerelease = p\<rparr> ''premajor''
           = Inr \<lparr>major = Num (a + 1), minor = Num 0, patch = Num 0, prerelease = Some ''alpha.0''\<rparr>
       \<and> bump \<lparr>major = Num a, minor = Num b, patch = Num c, prerelease = p\<rparr> ''preminor''
           = Inr \<lparr>major = Num a, minor = Num (b + 1), patch = Num 0, prerelease = Some ''alpha.0''\<rparr>
       \<and> bump \<lparr>major = Num a, minor = Num b, patch = Num c, prerelease = p\<rparr> ''prepatch''
           = Inr \<lparr>major = Num a, minor = Num b, patch = Num (c + 1), prerelease = Some ''alpha.0''\<rparr>"
proof -
  from assms have "\<bar>a + 1\<bar> \<le> 9007199254740992" "\<bar>b + 1\<bar> \<le> 9007199254740992"
    "\<bar>c + 1\<bar> \<le> 9007199254740992"
    by (simp_all add: valid_version_def MAX_SAFE_INTEGER_def)
  then show ?thesis by (simp add: bump_def)
qed

theorem bump_release_and_pre_kinds_witness:
  "valid_version \<lparr>major = Num 1, minor = Num 0, patch = Num 0, prerelease = None\<rparr>
   \<and> bump \<lparr>major = Num 1, minor = Num 0, patch = Num 0, prerelease = None\<rparr> ''prepatch''
       = Inr \<lparr>major = Num 1, minor = Num 0, patch = Num 1, prerelease = Some ''alpha.0''\<rparr>
   \<and> bump \<lparr>major = Num 1, minor = Num 0, patch = Num 0, prerelease = None\<rparr> ''major''
       = Inr \<lparr>major = Num 2, minor = Num 0, patch = Num 0, prerelease = None\<rparr>"
proof -
  have v: "valid_version \<lparr>major = Num 1, minor = Num 0, patch = Num 0, prerelease = None\<rparr>"
    by (simp add: valid_version_def MAX_SAFE_INTEGER_def)
  show ?thesis
    using v bump_release_and_pre_kinds [OF v] by simp
qed

text \<open>
  The claim as first stated covered every non-negative integer component. The version
  \<^verbatim>\<open>9007199254740992.0.0\<close> parses to the major component \<open>2^53\<close>, and \<^verbatim>\<open>major++\<close> leaves it
  as it is: \<open>2^53 + 1\<close> is no double and rounds back to \<open>2^53\<close>. The kind \<^verbatim>\<open>major\<close> gives
  the version back, and the kind \<^verbatim>\<open>patch\<close> does the same to a patch component \<open>2^53\<close>.
\<close>

theorem bump_beyond_safe_range_counterexample:
  "parseVersion ''9007199254740992.0.0''
     = Inr \<lparr>major = Num 9007199254740992, minor = Num 0, patch = Num 0, prerelease = None\<rparr>
   \<and> bump \<lparr>major = Num 9007199254740992, minor = Num 0, patch = Num 0, prerelease = None\<rparr> ''major''
       = Inr \<lparr>major = Num 9007199254740992, minor = Num 0, patch = Num 0, prerelease = None\<rparr>
   \<and> bump \<lparr>major = Num 9007199254740992, minor = Num 0, patch = Num 0, prerelease = None\<rparr> ''major''
       \<noteq> Inr \<lparr>major = Num (9007199254740992 + 1), minor = Num 0, patch = Num 0, prerelease = None\<rparr>
   \<and> bumpVersion ''9007199254740992.0.0'' ''major'' = Inr ''9007199254740992.0.0''
   \<and> bumpVersion ''1.0.9007199254740992'' ''patch'' = Inr ''1.0.9007199254740992''"
  by (simp add: bumpVersion_def parseVersion_def match_version_def digit_group_def class_run_def
      literal_dot_def literal_def isDigit_def bump_def parseInt_def formatVersion_def
      isWhiteSpace_def isRadixDigit_def digit_value_def radix_value_def decimal.simps
      digit_char_numerals isLineTerminator_def to_double_2_53_plus_1)

text \<open>
  Claim C10, as amended. For the kind \<^verbatim>\<open>prerelease\<close>, when the prerelease splits on the
  dot into exactly two parts and \<^verbatim>\<open>parseInt\<close> reads an integer of magnitude at most
  \<^verbatim>\<open>Number.MAX_SAFE_INTEGER\<close> at the start of the second part (the part need not be an
  integer as a whole; \<open>parseInt_decimal_prefix\<close> gives what is read from a decimal
  prefix), the second part is replaced by that integer plus one; the label and the three
  numeric components are kept. The examples of the claim, \<^verbatim>\<open>alpha.1abc\<close> and \<^verbatim>\<open>alpha.-2\<close>,
  give \<^verbatim>\<open>alpha.2\<close> and \<^verbatim>\<open>alpha.-1\<close>.
\<close>

theorem bump_prerelease_integer_prefix:
  assumes "CHR ''.'' \<notin> set label" and "CHR ''.'' \<notin> set part2"
    and "parseInt part2 = Num n" and "\<bar>n\<bar> \<le> MAX_SAFE_INTEGER"
  shows "bump \<lparr>major = a, minor = b, patch = c, prerelease = Some (label @ ''.'' @ part2)\<rparr> ''prerelease''
           = Inr \<lparr>major = a, minor = b, patch = c,
                  prerelease = Some (label @ ''.'' @ toString (Num (n + 1)))\<rparr>"
proof -
  from assms(4) have "\<bar>n + 1\<bar> \<le> 9007199254740992" by (simp add: MAX_SAFE_INTEGER_def)
  then have "incr (Num n) = Num (n + 1)" by simp
  then show ?thesis
    using assms(1-3) by (simp add: bump_def bump_prerelease_def split_two isNaN_def del: incr.simps)
qed

theorem bump_prerelease_integer_prefix_witness:
  "CHR ''.'' \<notin> set ''alpha'' \<and> CHR ''.'' \<notin> set ''1abc'' \<and> CHR ''.'' \<notin> set ''-2''
   \<and> parseInt ''1abc'' = Num 1 \<and> parseInt ''-2'' = Num (- 2)
   \<and> bump \<lparr>major = Num 1, minor = Num 0, patch = Num 1, prerelease = Some ''alpha.1abc''\<rparr> ''prerelease''
       = Inr \<lparr>major = Num 1, minor = Num 0, patch = Num 1, prerelease = Some ''alpha.2''\<rparr>
   \<and> bump \<lparr>major = Num 1, minor = Num 0, patch = Num 1, prerelease = Some ''alpha.-2''\<rparr> ''prerelease''
       = Inr \<lparr>major = Num 1, minor = Num 0, patch = Num 1, prerelease = Some ''alpha.-1''\<rparr>"
proof -
  have d: "CHR ''.'' \<notin> set ''alpha''" "CHR ''.'' \<notin> set ''1abc''" "CHR ''.'' \<notin> set ''-2''"
    by simp_all
  have p1: "parseInt ''1abc'' = Num 1"
    by (simp add: parseInt_def isWhiteSpace_def isRadixDigit_def digit_value_def isDigit_def radix_value_def)
  have p2: "parseInt ''-2'' = Num (- 2)"
    by (simp add: parseInt_def isWhiteSpace_def isRadixDigit_def digit_value_def isDigit_def radix_value_def)
  have s: "\<bar>1 :: int\<bar> \<le> MAX_SAFE_INTEGER" "\<bar>- 2 :: int\<bar> \<le> MAX_SAFE_INTEGER"
    by (simp_all add: MAX_SAFE_INTEGER_def)
  show ?thesis
    using d p1 p2
      bump_prerelease_integer_prefix [OF d(1) d(2) p1 s(1), of "Num 1" "Num 0" "Num 1"]
      bump_prerelease_integer_prefix [OF d(1) d(3) p2 s(2), of "Num 1" "Num 0" "Num 1"]
    by (simp add: decimal.simps digit_char_numerals)
qed

text \<open>
  The claim as first stated covered every integer prefix. For \<^verbatim>\<open>alpha.9007199254740992\<close>
  the prefix reads as \<open>2^53\<close>, adding 1 is lost in the rounding, and the second part is
  replaced by the same integer: the prerelease is not incremented.
\<close>

theorem bump_prerelease_beyond_safe_range_counterexample:
  "CHR ''.'' \<notin> set ''alpha'' \<and> CHR ''.'' \<notin> set ''9007199254740992''
   \<and> parseInt ''9007199254740992'' = Num 9007199254740992
   \<and> bump \<lparr>major = Num 1, minor = Num 0, patch = Num 0,
             prerelease = Some ''alpha.9007199254740992''\<rparr> ''prerelease''
       = Inr \<lparr>major = Num 1, minor = Num 0, patch = Num 0,
                prerelease = Some ''alpha.9007199254740992''\<rparr>
   \<and> ''alpha.9007199254740992'' \<noteq> ''alpha.9007199254740993''
   \<and> bumpVersion ''1.0.0-alpha.9007199254740992'' ''prerelease'' = Inr ''1.0.0-alpha.9007199254740992''"
  by (simp add: bumpVersion_def parseVersion_def match_version_def digit_group_def class_run_def
      literal_dot_def literal_def isDigit_def bump_def bump_prerelease_def parseInt_def isNaN_def
      formatVersion_def isWhiteSpace_def isRadixDigit_def digit_value_def radix_value_def
      decimal.simps digit_char_numerals isLineTerminator_def to_double_2_53_plus_1)

text \<open>
  Claim C1, as amended. For a valid version with components of at most
  \<^verbatim>\<open>Number.MAX_SAFE_INTEGER\<close> and the kind \<^verbatim>\<open>prerelease\<close>: a prerelease of the exact shape
  label, dot, integer (the label without a dot; the integer a non-empty run of decimal
  digits, with or without a minus sign before it, of magnitude at most
  \<^verbatim>\<open>Number.MAX_SAFE_INTEGER\<close>) keeps the three components and the label and replaces the
  integer by the decimal form of its value plus one; with no prerelease, the patch is
  incremented and the prerelease becomes \<^verbatim>\<open>alpha.0\<close>; with a prerelease that does not split
  on the dot into two parts of which \<^verbatim>\<open>parseInt\<close> reads the second, the three components
  are kept (the patch is not incremented) and the prerelease becomes \<^verbatim>\<open>alpha.0\<close>.
\<close>

theorem bump_prerelease_kind:
  assumes "safe_natural (Num a)" and "safe_natural (Num b)" and "safe_natural (Num c)"
  shows "(CHR ''.'' \<notin> set label \<and> digits ds \<and> int (radix_value 10 ds) \<le> MAX_SAFE_INTEGER \<longrightarrow>
            bump \<lparr>major = Num a, minor = Num b, patch = Num c,
                   prerelease = Some (label @ ''.'' @ ds)\<rparr> ''prerelease''
            = Inr \<lparr>major = Num a, minor = Num b, patch = Num c,
                    prerelease = Some (label @ ''.'' @ toString (Num (int (radix_value 10 ds) + 1)))\<rparr>
            \<and> bump \<lparr>major = Num a, minor = Num b, patch = Num c,
                     prerelease = Some (label @ ''.'' @ ''-'' @ ds)\<rparr> ''prerelease''
            = Inr \<lparr>major = Num a, minor = Num b, patch = Num c,
                    prerelease = Some (label @ ''.'' @ toString (Num (- int (radix_value 10 ds) + 1)))\<rparr>)
       \<and> bump \<lparr>major = Num a, minor = Num b, patch = Num c, prerelease = None\<rparr> ''prerelease''
            = Inr \<lparr>major = Num a, minor = Num b, patch = Num (c + 1), prerelease = Some ''alpha.0''\<rparr>
       \<and> (pre \<noteq> [] \<and> \<not> (\<exists>l r. pre = l @ ''.'' @ r \<and> CHR ''.'' \<notin> set l \<and> CHR ''.'' \<notin> set r
                              \<and> parseInt r \<noteq> NaN) \<longrightarrow>
            bump \<lparr>major = Num a, minor = Num b, patch = Num c, prerelease = Some pre\<rparr> ''prerelease''
            = Inr \<lparr>major = Num a, minor = Num b, patch = Num c, prerelease = Some ''alpha.0''\<rparr>)"
proof (intro conjI impI)
  assume h: "CHR ''.'' \<notin> set label \<and> digits ds \<and> int (radix_value 10 ds) \<le> MAX_SAFE_INTEGER"
  define v where "v = int (radix_value 10 ds)"
  have v: "0 \<le> v" "v \<le> 9007199254740991"
    using h by (simp_all add: v_def MAX_SAFE_INTEGER_def)
  have nodot: "CHR ''.'' \<notin> set ds"
    using h isDigit_facts(6) by (auto simp: digits_def list_all_iff)
  have ne: "ds \<noteq> []" and all: "list_all isDigit ds" using h by (simp_all add: digits_def)
  have p: "parseInt ds = Num v"
    using parseInt_digits [OF ne all] v by (simp add: v_def)
  have i: "incr (Num v) = Num (v + 1)" using v by simp
  have sp: "split (CHR ''.'') (label @ ''.'' @ ds) = [label, ds]"
    using split_two [of "CHR ''.''" label ds] h nodot by simp
  show "bump \<lparr>major = Num a, minor = Num b, patch = Num c,
                   prerelease = Some (label @ ''.'' @ ds)\<rparr> ''prerelease''
            = Inr \<lparr>major = Num a, minor = Num b, patch = Num c,
                    prerelease = Some (label @ ''.'' @ toString (Num (int (radix_value 10 ds) + 1)))\<rparr>"
    using sp ne
    by (simp add: bump_def bump_prerelease_def p i isNaN_def v_def [symmetric]
        del: toString.simps incr.simps)
  have p': "parseInt (CHR ''-'' # ds) = Num (- v)"
    using parseInt_minus_digits [OF ne all] v by (simp add: v_def)
  have i': "incr (Num (- v)) = Num (- v + 1)" using v by simp
  have sp': "split (CHR ''.'') (label @ ''.'' @ ''-'' @ ds) = [label, CHR ''-'' # ds]"
    using split_two [of "CHR ''.''" label "CHR ''-'' # ds"] h nodot by simp
  show "bump \<lparr>major = Num a, minor = Num b, patch = Num c,
                     prerelease = Some (label @ ''.'' @ ''-'' @ ds)\<rparr> ''prerelease''
            = Inr \<lparr>major = Num a, minor = Num b, patch = Num c,
                    prerelease = Some (label @ ''.'' @ toString (Num (- int (radix_value 10 ds) + 1)))\<rparr>"
    using sp'
    by (simp add: bump_def bump_prerelease_def p' i' isNaN_def v_def [symmetric]
        del: toString.simps incr.simps)
next
  have "\<bar>c + 1\<bar> \<le> 9007199254740992" using assms(3) by (simp add: MAX_SAFE_INTEGER_def)
  then show "bump \<lparr>major = Num a, minor = Num b, patch = Num c, prerelease = None\<rparr> ''prerelease''
            = Inr \<lparr>major = Num a, minor = Num b, patch = Num (c + 1), prerelease = Some ''alpha.0''\<rparr>"
    by (simp add: bump_def bump_prerelease_def)
next
  assume h: "pre \<noteq> [] \<and> \<not> (\<exists>l r. pre = l @ ''.'' @ r \<and> CHR ''.'' \<notin> set l \<and> CHR ''.'' \<notin> set r
                              \<and> parseInt r \<noteq> NaN)"
  have "\<And>p0 p1. split (CHR ''.'') pre = [p0, p1] \<Longrightarrow> isNaN (parseInt p1)"
  proof -
    fix p0 p1 assume "split (CHR ''.'') pre = [p0, p1]"
    then have "pre = p0 @ ''.'' @ p1 \<and> CHR ''.'' \<notin> set p0 \<and> CHR ''.'' \<notin> set p1"
      using split_two_D [of "CHR ''.''" pre p0 p1] by simp
    with h show "isNaN (parseInt p1)" unfolding isNaN_def by blast
  qed
  with h show "bump \<lparr>major = Num a, minor = Num b, patch = Num c, prerelease = Some pre\<rparr> ''prerelease''
            = Inr \<lparr>major = Num a, minor = Num b, patch = Num c, prerelease = Some ''alpha.0''\<rparr>"
    by (simp add: bump_def bump_prerelease_def split: list.splits)
qed

theorem bump_prerelease_kind_witness:
  "safe_natural (Num 1) \<and> safe_natural (Num 0)
   \<and> CHR ''.'' \<notin> set ''alpha'' \<and> digits ''07'' \<and> int (radix_value 10 ''07'') \<le> MAX_SAFE_INTEGER
   \<and> bump \<lparr>major = Num 1, minor = Num 0, patch = Num 1, prerelease = Some ''alpha.07''\<rparr> ''prerelease''
       = Inr \<lparr>major = Num 1, minor = Num 0, patch = Num 1, prerelease = Some ''alpha.8''\<rparr>
   \<and> bump \<lparr>major = Num 1, minor = Num 0, patch = Num 1, prerelease = Some ''alpha.-07''\<rparr> ''prerelease''
       = Inr \<lparr>major = Num 1, minor = Num 0, patch = Num 1, prerelease = Some ''alpha.-6''\<rparr>
   \<and> bump \<lparr>major = Num 1, minor = Num 0, patch = Num 1, prerelease = None\<rparr> ''prerelease''
       = Inr \<lparr>major = Num 1, minor = Num 0, patch = Num 2, prerelease = Some ''alpha.0''\<rparr>
   \<and> bump \<lparr>major = Num 1, minor = Num 0, patch = Num 1, prerelease = Some ''beta''\<rparr> ''prerelease''
       = Inr \<lparr>major = Num 1, minor = Num 0, patch = Num 1, prerelease = Some ''alpha.0''\<rparr>"
proof -
  have s: "safe_natural (Num 1)" "safe_natural (Num 0)"
    by (simp_all add: MAX_SAFE_INTEGER_def)
  have r: "radix_value 10 ''07'' = 7"
    by (simp add: radix_value_def digit_value_def isDigit_def)
  have i: "CHR ''.'' \<notin> set ''alpha'' \<and> digits ''07'' \<and> int (radix_value 10 ''07'') \<le> MAX_SAFE_INTEGER"
    by (simp add: r digits_def isDigit_def MAX_SAFE_INTEGER_def)
  have "\<not> (\<exists>l r. ''beta'' = l @ ''.'' @ r \<and> CHR ''.'' \<notin> set l \<and> CHR ''.'' \<notin> set r \<and> parseInt r \<noteq> NaN)"
  proof
    assume "\<exists>l r. ''beta'' = l @ ''.'' @ r \<and> CHR ''.'' \<notin> set l \<and> CHR ''.'' \<notin> set r \<and> parseInt r \<noteq> NaN"
    then obtain l r where "''beta'' = l @ ''.'' @ r" by blast
    then have "set ''beta'' = set (l @ ''.'' @ r)" by (rule arg_cong)
    then have "CHR ''.'' \<in> set ''beta''" by simp
    then show False by simp
  qed
  then have p: "''beta'' \<noteq> [] \<and> \<not> (\<exists>l r. ''beta'' = l @ ''.'' @ r \<and> CHR ''.'' \<notin> set l \<and> CHR ''.'' \<notin> set r
      \<and> parseInt r \<noteq> NaN)"
    by simp
  show ?thesis
    using s i p bump_prerelease_kind [OF s(1) s(2) s(1), of "''alpha''" "''07''" "''beta''"]
    by (simp add: r decimal.simps digit_char_numerals)
qed

text \<open>
  The claim as first stated promised a patch increment for every prerelease that is not
  of the two-part shape; for \<^verbatim>\<open>1.0.1-beta\<close> the script answers \<^verbatim>\<open>1.0.1-alpha.0\<close>.
\<close>

theorem bump_prerelease_patch_counterexample:
  "CHR ''.'' \<notin> set ''beta''
   \<and> bump \<lparr>major = Num 1, minor = Num 0, patch = Num 1, prerelease = Some ''beta''\<rparr> ''prerelease''
       = Inr \<lparr>major = Num 1, minor = Num 0, patch = Num 1, prerelease = Some ''alpha.0''\<rparr>
   \<and> bump \<lparr>major = Num 1, minor = Num 0, patch = Num 1, prerelease = Some ''beta''\<rparr> ''prerelease''
       \<noteq> Inr \<lparr>major = Num 1, minor = Num 0, patch = Num 2, prerelease = Some ''alpha.0''\<rparr>
   \<and> bumpVersion ''1.0.1-beta'' ''prerelease'' = Inr ''1.0.1-alpha.0''"
  by (simp add: bumpVersion_def parseVersion_def match_version_def digit_group_def class_run_def literal_dot_def literal_def
      isDigit_def bump_def bump_prerelease_def parseInt_def isNaN_def formatVersion_def
      isWhiteSpace_def isRadixDigit_def digit_value_def radix_value_def decimal.simps
      digit_char_numerals isLineTerminator_def)

section \<open>Parsing and formatting\<close>

text \<open>
  Claim C4, as amended. \<^verbatim>\<open>parseVersion\<close> accepts exactly the strings of three runs of digits
  separated by dots, optionally followed by a hyphen and a non-empty suffix that holds
  no line terminator (white space other than a line terminator is accepted in the
  suffix); every other string fails with the error whose message is
  \<^verbatim>\<open>Invalid version format: \<close> followed by the string.
\<close>

theorem parseVersion_accepts_script_grammar:
  "((\<exists>v. parseVersion s = Inr v) \<longleftrightarrow> script_version_grammar s)
   \<and> (\<not> script_version_grammar s \<longrightarrow> parseVersion s = Inl (Error (''Invalid version format: '' @ s)))"
  by (auto simp: script_grammar_match parseVersion_def split: option.splits)

theorem parseVersion_accepts_script_grammar_witness:
  "script_version_grammar ''1.2.3-a b'' \<and> \<not> script_version_grammar ''v1.0''
   \<and> parseVersion ''v1.0'' = Inl (Error ''Invalid version format: v1.0'')"
proof -
  have a: "parseVersion ''1.2.3-a b''
     = Inr \<lparr>major = Num 1, minor = Num 2, patch = Num 3, prerelease = Some ''a b''\<rparr>"
    by (simp add: parseVersion_def match_version_def digit_group_def class_run_def literal_dot_def literal_def isDigit_def
        parseInt_def isWhiteSpace_def isRadixDigit_def digit_value_def radix_value_def
        isLineTerminator_def)
  have b: "parseVersion ''v1.0'' = Inl (Error ''Invalid version format: v1.0'')"
    by (simp add: parseVersion_def match_version_def digit_group_def class_run_def isDigit_def)
  show ?thesis
    using a b parseVersion_accepts_script_grammar [of "''1.2.3-a b''"]
      parseVersion_accepts_script_grammar [of "''v1.0''"]
    by auto
qed

text \<open>
  The claim as first stated excluded all white space from the suffix; the script accepts
  \<^verbatim>\<open>1.2.3-a b\<close>, which the grammar of the specification does not hold.
\<close>

theorem parseVersion_whitespace_counterexample:
  "parseVersion ''1.2.3-a b''
     = Inr \<lparr>major = Num 1, minor = Num 2, patch = Num 3, prerelease = Some ''a b''\<rparr>
   \<and> \<not> spec_version_grammar ''1.2.3-a b''"
proof -
  have "\<not> list_ex isWhiteSpace s" if "spec_version_grammar s" for s
    using that unfolding spec_version_grammar_def
    by (rule grammar_no_excluded) (simp_all add: isDigit_facts(1), simp_all add: isWhiteSpace_def)
  moreover have "list_ex isWhiteSpace ''1.2.3-a b''"
    by (simp add: isWhiteSpace_def)
  ultimately have "\<not> spec_version_grammar ''1.2.3-a b''" by blast
  moreover have "parseVersion ''1.2.3-a b''
     = Inr \<lparr>major = Num 1, minor = Num 2, patch = Num 3, prerelease = Some ''a b''\<rparr>"
    by (simp add: parseVersion_def match_version_def digit_group_def class_run_def literal_dot_def literal_def isDigit_def
        parseInt_def isWhiteSpace_def isRadixDigit_def digit_value_def radix_value_def
        isLineTerminator_def)
  ultimately show ?thesis by simp
qed

text \<open>
  Claim C3, as amended. Round trip: for every valid version whose prerelease, when
  present, holds no line terminator, parsing the formatted version succeeds and gives
  the version back.
\<close>

theorem parse_format_roundtrip:
  assumes "valid_version \<lparr>major = Num a, minor = Num b, patch = Num c, prerelease = p\<rparr>"
    and "case p of None \<Rightarrow> True | Some pre \<Rightarrow> \<not> list_ex isLineTerminator pre"
  shows "parseVersion (formatVersion \<lparr>major = Num a, minor = Num b, patch = Num c, prerelease = p\<rparr>)
         = Inr \<lparr>major = Num a, minor = Num b, patch = Num c, prerelease = p\<rparr>"
proof -
  from assms(1) have n: "safe_natural (Num a)" "safe_natural (Num b)" "safe_natural (Num c)"
    and ne: "p \<noteq> Some []"
    by (simp_all add: valid_version_def)
  show ?thesis
  proof (cases p)
    case None
    then show ?thesis
      using parseVersion_formatted [OF n, of "[]"]
      by (simp add: formatVersion_def del: toString.simps)
  next
    case (Some pre)
    with ne assms(2) have "pre \<noteq> []" "\<not> list_ex isLineTerminator pre" by simp_all
    then show ?thesis
      using parseVersion_formatted [OF n, of "''-'' @ pre"] Some
      by (simp add: formatVersion_def del: toString.simps)
  qed
qed

theorem parse_format_roundtrip_witness:
  "valid_version \<lparr>major = Num 1, minor = Num 0, patch = Num 1, prerelease = Some ''alpha.0''\<rparr>
   \<and> \<not> list_ex isLineTerminator ''alpha.0''
   \<and> formatVersion \<lparr>major = Num 1, minor = Num 0, patch = Num 1, prerelease = Some ''alpha.0''\<rparr>
       = ''1.0.1-alpha.0''
   \<and> parseVersion ''1.0.1-alpha.0''
       = Inr \<lparr>major = Num 1, minor = Num 0, patch = Num 1, prerelease = Some ''alpha.0''\<rparr>"
proof -
  have v: "valid_version \<lparr>major = Num 1, minor = Num 0, patch = Num 1, prerelease = Some ''alpha.0''\<rparr>"
    by (simp add: valid_version_def MAX_SAFE_INTEGER_def)
  have l: "\<not> list_ex isLineTerminator ''alpha.0''"
    by (simp add: isLineTerminator_def)
  then have l': "case Some ''alpha.0'' of None \<Rightarrow> True | Some pre \<Rightarrow> \<not> list_ex isLineTerminator pre"
    by simp
  have f: "formatVersion \<lparr>major = Num 1, minor = Num 0, patch = Num 1, prerelease = Some ''alpha.0''\<rparr>
       = ''1.0.1-alpha.0''"
    by (simp add: formatVersion_def decimal.simps digit_char_numerals)
  show ?thesis
    using v l f parse_format_roundtrip [OF v l'] by simp
qed

text \<open>
  The claim as first stated allowed every non-empty prerelease; a prerelease that holds
  a line feed is formatted to a string that \<^verbatim>\<open>parseVersion\<close> rejects.
\<close>

theorem parse_format_newline_counterexample:
  "valid_version \<lparr>major = Num 1, minor = Num 2, patch = Num 3,
                  prerelease = Some [CHR ''a'', CHR 0x0A, CHR ''b'']\<rparr>
   \<and> parseVersion (formatVersion \<lparr>major = Num 1, minor = Num 2, patch = Num 3,
                                  prerelease = Some [CHR ''a'', CHR 0x0A, CHR ''b'']\<rparr>)
       = Inl (Error (''Invalid version format: 1.2.3-a'' @ [CHR 0x0A] @ ''b''))"
  by (simp add: valid_version_def MAX_SAFE_INTEGER_def formatVersion_def decimal.simps
      digit_char_numerals parseVersion_def match_version_def digit_group_def class_run_def literal_dot_def literal_def
      isDigit_def isLineTerminator_def)

text \<open>
  Claim C5, as amended. For every string that \<^verbatim>\<open>parseVersion\<close> accepts and whose three
  numeric groups are written without a leading zero (and are of a value that the
  script's numbers hold exactly), formatting the parsed version gives the string back.
\<close>

theorem format_parse_canonical:
  assumes "parseVersion s = Inr v"
    and "match_version s = Some (m1, m2, m3, m4)"
    and "canonical_numeral m1" and "canonical_numeral m2" and "canonical_numeral m3"
  shows "formatVersion v = s"
proof -
  have d: "digits m1" "digits m2" "digits m3"
    using assms(3-5) by (simp_all add: canonical_numeral_def)
  have p: "parseInt m1 = Num (int (radix_value 10 m1))" "parseInt m2 = Num (int (radix_value 10 m2))"
    "parseInt m3 = Num (int (radix_value 10 m3))"
    using d assms(3-5)
    by (simp_all add: digits_def parseInt_digits canonical_numeral_def MAX_SAFE_INTEGER_def)
  have t: "toString (parseInt m1) = m1" "toString (parseInt m2) = m2" "toString (parseInt m3) = m3"
    using assms(3-5) by (simp_all add: p decimal_canonical)
  have v: "v = \<lparr>major = parseInt m1, minor = parseInt m2, patch = parseInt m3,
                 prerelease = (case m4 of None \<Rightarrow> None | Some p \<Rightarrow> if p = [] then None else Some p)\<rparr>"
    using assms(1,2) by (simp add: parseVersion_def)
  show ?thesis
    using match_version_SomeD [OF assms(2)]
    by (cases m4) (simp_all add: v formatVersion_def t)
qed

theorem format_parse_canonical_witness:
  "parseVersion ''1.0.1-alpha.0''
     = Inr \<lparr>major = Num 1, minor = Num 0, patch = Num 1, prerelease = Some ''alpha.0''\<rparr>
   \<and> match_version ''1.0.1-alpha.0'' = Some (''1'', ''0'', ''1'', Some ''alpha.0'')
   \<and> canonical_numeral ''1'' \<and> canonical_numeral ''0''
   \<and> formatVersion \<lparr>major = Num 1, minor = Num 0, patch = Num 1, prerelease = Some ''alpha.0''\<rparr>
       = ''1.0.1-alpha.0''"
proof -
  have m: "match_version ''1.0.1-alpha.0'' = Some (''1'', ''0'', ''1'', Some ''alpha.0'')"
    by (simp add: match_version_def digit_group_def class_run_def literal_dot_def literal_def isDigit_def isLineTerminator_def)
  have p: "parseVersion ''1.0.1-alpha.0''
     = Inr \<lparr>major = Num 1, minor = Num 0, patch = Num 1, prerelease = Some ''alpha.0''\<rparr>"
    by (simp add: parseVersion_def m parseInt_def isWhiteSpace_def isRadixDigit_def digit_value_def
        isDigit_def radix_value_def)
  have c: "canonical_numeral ''1''" "canonical_numeral ''0''"
    by (simp_all add: canonical_numeral_def digits_def isDigit_def radix_value_def digit_value_def
        MAX_SAFE_INTEGER_def)
  show ?thesis
    using m p c format_parse_canonical [OF p m c(1) c(2) c(1)] by simp
qed

text \<open>
  The claim as first stated included numeric components with leading zeros; the script
  accepts \<^verbatim>\<open>01.2.3\<close> and formats the parsed version as \<^verbatim>\<open>1.2.3\<close>.
\<close>

theorem format_parse_leading_zero_counterexample:
  "parseVersion ''01.2.3'' = Inr \<lparr>major = Num 1, minor = Num 2, patch = Num 3, prerelease = None\<rparr>
   \<and> formatVersion \<lparr>major = Num 1, minor = Num 2, patch = Num 3, prerelease = None\<rparr> = ''1.2.3''
   \<and> ''1.2.3'' \<noteq> ''01.2.3''"
  by (simp add: parseVersion_def match_version_def digit_group_def class_run_def literal_dot_def literal_def isDigit_def
      parseInt_def isWhiteSpace_def isRadixDigit_def digit_value_def radix_value_def
      formatVersion_def decimal.simps digit_char_numerals)

section \<open>Runs that change nothing\<close>

text \<open>
  Claim C6. Dry run: for every invocation whose arguments hold \<^verbatim>\<open>--dry-run\<close>, whatever
  the first argument, the files and the state of the repository, the run leaves every
  file as it was, writes no file and executes no source-control command.
\<close>

theorem dry_run_no_mutation:
  assumes "''--dry-run'' \<in> set args"
  shows "files (snd (main J args w)) = files w
       \<and> writes (snd (main J args w)) = writes w
       \<and> git_commands (snd (main J args w)) = git_commands w"
  using assms readPackageJson_cases [of w J]
  by (auto simp: main_def Let_def showHelp_def colorLog_fields
      split: list.splits option.splits sum.splits jsvalue.splits)


theorem dry_run_no_mutation_witness:
  "''--dry-run'' \<in> set [''patch'', ''--dry-run'']
   \<and> main example_JSON [''patch'', ''--dry-run''] (example_world ''1.2.3'' ''return \"1.2.3\";'')
       = (0, (example_world ''1.2.3'' ''return \"1.2.3\";'')
               \<lparr>console := [VersionChange ''1.2.3'' ''1.2.4'', DryRunNotice]\<rparr>)
   \<and> files (snd (main example_JSON [''patch'', ''--dry-run''] (example_world ''1.2.3'' ''return \"1.2.3\";'')))
       = files (example_world ''1.2.3'' ''return \"1.2.3\";'')"
proof -
  have a: "''--dry-run'' \<in> set [''patch'', ''--dry-run'']" by simp
  have r: "main example_JSON [''patch'', ''--dry-run''] (example_world ''1.2.3'' ''return \"1.2.3\";'')
       = (0, (example_world ''1.2.3'' ''return \"1.2.3\";'')
               \<lparr>console := [VersionChange ''1.2.3'' ''1.2.4'', DryRunNotice]\<rparr>)"
    by (simp add: run_eval)
  show ?thesis
    using a r dry_run_no_mutation [OF a, of example_JSON "example_world ''1.2.3'' ''return \"1.2.3\";''"]
    by simp
qed

text \<open>
  Claim C7. For every invocation with a valid bump kind whose manifest holds a version
  string that \<^verbatim>\<open>parseVersion\<close> rejects, the run ends with exit code 1, prints the error
  \<^verbatim>\<open>Invalid version format\<close> with the string, and changes nothing else: the world it leaves
  is the initial one with that line printed, so no file is written.
\<close>

theorem invalid_manifest_version_aborts:
  assumes "bumpType \<in> set validBumpTypes"
    and "files w packageJsonPath = Some text" and "parse J text = Some packageJson"
    and "version_field J packageJson = Some (Str currentVersion)"
    and "parseVersion currentVersion = Inl e"
  shows "main J (bumpType # options) w
         = (1, colorLog (ErrorMsg (Error (''Invalid version format: '' @ currentVersion))) w)"
proof -
  have e: "e = Error (''Invalid version format: '' @ currentVersion)"
    using assms(5) by (auto simp: parseVersion_def split: option.splits)
  have b: "bumpType \<noteq> []" "bumpType \<noteq> ''help''" "bumpType \<noteq> ''current''"
    using assms(1) by (auto simp: validBumpTypes_def)
  have r: "readPackageJson J w = Return packageJson w"
    using assms(2,3) by (simp add: readPackageJson_def)
  have v: "bumpVersion currentVersion bumpType = Inl e"
    using assms(5) by (simp add: bumpVersion_def)
  show ?thesis
    using b assms(1,4) by (simp add: main_def Let_def r v e)
qed

theorem invalid_manifest_version_aborts_witness:
  "''patch'' \<in> set validBumpTypes
   \<and> files (example_world ''v1.0'' ''return \"1.0.0\";'') packageJsonPath = Some ''v1.0''
   \<and> parse example_JSON ''v1.0'' = Some ''v1.0''
   \<and> version_field example_JSON ''v1.0'' = Some (Str ''v1.0'')
   \<and> parseVersion ''v1.0'' = Inl (Error ''Invalid version format: v1.0'')
   \<and> main example_JSON [''patch''] (example_world ''v1.0'' ''return \"1.0.0\";'')
       = (1, (example_world ''v1.0'' ''return \"1.0.0\";'')
               \<lparr>console := [ErrorMsg (Error ''Invalid version format: v1.0'')]\<rparr>)"
proof -
  have 1: "''patch'' \<in> set validBumpTypes" by (simp add: validBumpTypes_def)
  have 2: "files (example_world ''v1.0'' ''return \"1.0.0\";'') packageJsonPath = Some ''v1.0''"
    by (simp add: example_world_def packageJsonPath_def indexTsPath_def)
  have 3: "parse example_JSON ''v1.0'' = Some ''v1.0''" by (simp add: example_JSON_def)
  have 4: "version_field example_JSON ''v1.0'' = Some (Str ''v1.0'')" by (simp add: example_JSON_def)
  have 5: "parseVersion ''v1.0'' = Inl (Error ''Invalid version format: v1.0'')"
    by (simp add: parseVersion_def match_version_def digit_group_def class_run_def isDigit_def)
  show ?thesis
    using 1 2 3 4 5 invalid_manifest_version_aborts [OF 1 2 3 4 5, of "[]"]
    by (simp add: colorLog_def example_world_def)
qed

section \<open>Runs that write\<close>

text \<open>
  Claim C9 says that the commit stages the manifest and the source file. The script
  stages the manifest only: in a clean repository, a \<^verbatim>\<open>patch\<close> run writes both files, then
  executes \<^verbatim>\<open>git add package.json\<close>, the commit with the message
  \<^verbatim>\<open>chore: bump version to 1.0.1\<close> and the tag \<^verbatim>\<open>v1.0.1\<close>; no command names the source file,
  which is left modified and out of the commit (\<open>createGitTag_commands\<close> gives the three
  commands for every version).
\<close>

theorem commit_stages_manifest_only:
  "writes (snd (main example_JSON [''patch''] (example_world ''1.0.0'' ''return \"1.0.0\";'')))
     = [''package.json'', ''src/index.ts'']
   \<and> files (snd (main example_JSON [''patch''] (example_world ''1.0.0'' ''return \"1.0.0\";''))) indexTsPath
     = Some ''return \"1.0.1\";''
   \<and> git_commands (snd (main example_JSON [''patch''] (example_world ''1.0.0'' ''return \"1.0.0\";'')))
     = [''git status --porcelain'', ''git add package.json'',
        ''git commit -m \"chore: bump version to 1.0.1\"'', ''git tag v1.0.1'']"
  by (simp add: run_eval)

text \<open>
  Claim C8 says that the first match is rewritten to the new version text. The script
  hands the new version to \<^verbatim>\<open>replace\<close> as a replacement string, where a dollar sign starts
  a pattern: for the manifest version \<^verbatim>\<open>1.0.0-$&.0\<close> and the kind \<^verbatim>\<open>prerelease\<close> the new
  version is \<^verbatim>\<open>1.0.0-$&.1\<close>, and the source file receives the matched text in place of
  \<^verbatim>\<open>$&\<close>. For a new version without a dollar sign the claim holds, by the lemmas
  \<open>updateIndexTs_absent\<close>, \<open>updateIndexTs_no_match\<close> and \<open>updateIndexTs_first_match\<close>; the
  match that is rewritten is the leftmost one, by \<open>versionRegex_search_leftmost\<close>.
\<close>

theorem source_update_expands_dollar_patterns:
  "bumpVersion ''1.0.0-$&.0'' ''prerelease'' = Inr ''1.0.0-$&.1''
   \<and> files (snd (main example_JSON [''prerelease'', ''--no-git'']
                  (example_world ''1.0.0-$&.0'' ''return \"1.0.0\";''))) indexTsPath
     = Some ''return \"1.0.0-return \"1.0.0\";.1\";''
   \<and> ''return \"1.0.0-return \"1.0.0\";.1\";'' \<noteq> ''return \"1.0.0-$&.1\";''"
  by (simp add: run_eval)

end
